theory Spec2Isabelle
  imports Main
begin

section \<open>Data model of the task store (hooks/useTasks)\<close>

text \<open>
  The sources hold two texts of the hook \<^verbatim>\<open>useTasks\<close>. This section and the next two
  follow the later one, which reads the store through \<^verbatim>\<open>stateRef\<close> and which the
  pages import; the earlier one follows in a section of its own.

  The store is the reducer of \<^verbatim>\<open>useTasks\<close>. A \<^verbatim>\<open>Record<StatusKey, X>\<close> is an object with
  exactly the three keys \<^verbatim>\<open>"to-do"\<close>, \<^verbatim>\<open>"in-progress"\<close> and \<^verbatim>\<open>"done"\<close>; it is a record
  with three fields, read with \<open>getKey\<close> (\<^verbatim>\<open>r[key]\<close>) and copied-and-updated with
  \<open>setKey\<close> (\<^verbatim>\<open>{...r, [key]: v}\<close>).
\<close>

datatype StatusKey = To_do | In_progress | Done

definition statusKeyArray :: "StatusKey list" where
  "statusKeyArray = [To_do, In_progress, Done]"

record 'a byStatus =
  to_do :: 'a
  in_progress :: 'a
  done' :: 'a

fun getKey :: "'a byStatus \<Rightarrow> StatusKey \<Rightarrow> 'a" where
  "getKey r To_do = to_do r"
| "getKey r In_progress = in_progress r"
| "getKey r Done = done' r"

fun setKey :: "'a byStatus \<Rightarrow> StatusKey \<Rightarrow> 'a \<Rightarrow> 'a byStatus" where
  "setKey r To_do v = r\<lparr>to_do := v\<rparr>"
| "setKey r In_progress v = r\<lparr>in_progress := v\<rparr>"
| "setKey r Done v = r\<lparr>done' := v\<rparr>"

text \<open>
  The declaration of \<^verbatim>\<open>Task\<close> (types/tasks) is not among the sources. The store reads
  two of its fields, \<^verbatim>\<open>id\<close> (always through \<^verbatim>\<open>id.toString()\<close>, so the field holds that
  string) and \<^verbatim>\<open>status\<close>; the others are carried along unchanged.
\<close>

record Task =
  task_id :: string
  title :: string
  description :: string
  status :: string
  category :: "string option"
  subcategory :: "string option"
  country :: "string option"
  created_at :: string

record 'a range =
  range_from :: "'a option"
  range_to :: "'a option"

record State =
  tasksByStatus :: "Task list byStatus"
  statusFilter :: "string option"
  categoryFilter :: "string option"
  subcategoryFilter :: "string option"
  dateRange :: "string range"
  limit :: "nat option"
  pageByStatus :: "nat byStatus"
  hasMoreByStatus :: "bool byStatus"
  loading :: bool
  searchQuery :: "string option"
  totalCountByStatus :: "nat byStatus"
  filtersChanged :: bool
  selectedCountries :: "string list"
  countryOptions :: "string list"
  hourlyBudgetType :: "string option"
  priceRange :: "int range"

datatype Action =
    SET_TASKS_BY_STATUS "Task list byStatus"
  | SET_STATUS_FILTER "string option"
  | SET_CATEGORY_FILTER "string option"
  | SET_SUBCATEGORY_FILTER "string option"
  | SET_DATE_RANGE "string range"
  | SET_LIMIT "nat option"
  | SET_PAGE_BY_STATUS StatusKey nat
  | SET_HAS_MORE_BY_STATUS StatusKey bool
  | SET_LOADING bool
  | SET_SEARCH_QUERY "string option"
  | SET_TOTAL_COUNT_BY_STATUS "nat byStatus"
  | RESET_PAGINATION
  | SET_FILTERS_CHANGED bool
  | UPDATE_TASKS_FOR_STATUS StatusKey "Task list"
  | SET_SELECTED_COUNTRIES "string list"
  | SET_COUNTRY_OPTIONS "string list"
  | SET_HOURLY_BUDGET_TYPE "string option"
  | SET_PRICE_RANGE "int range"

definition initialState :: State where
  "initialState =
     \<lparr>tasksByStatus = \<lparr>to_do = [], in_progress = [], done' = []\<rparr>,
      statusFilter = None,
      categoryFilter = None,
      subcategoryFilter = None,
      dateRange = \<lparr>range_from = None, range_to = None\<rparr>,
      limit = None,
      pageByStatus = \<lparr>to_do = 0, in_progress = 0, done' = 0\<rparr>,
      hasMoreByStatus = \<lparr>to_do = True, in_progress = True, done' = True\<rparr>,
      loading = False,
      searchQuery = None,
      totalCountByStatus = \<lparr>to_do = 0, in_progress = 0, done' = 0\<rparr>,
      filtersChanged = False,
      selectedCountries = [],
      countryOptions = [],
      hourlyBudgetType = None,
      priceRange = \<lparr>range_from = None, range_to = None\<rparr>\<rparr>"

fun reducer :: "State \<Rightarrow> Action \<Rightarrow> State" where
  "reducer state (SET_TASKS_BY_STATUS payload) = state\<lparr>tasksByStatus := payload\<rparr>"
| "reducer state (UPDATE_TASKS_FOR_STATUS key tasks) =
     state\<lparr>tasksByStatus := setKey (tasksByStatus state) key tasks\<rparr>"
| "reducer state (SET_STATUS_FILTER payload) =
     state\<lparr>statusFilter := payload, filtersChanged := True\<rparr>"
| "reducer state (SET_CATEGORY_FILTER payload) =
     state\<lparr>categoryFilter := payload, filtersChanged := True\<rparr>"
| "reducer state (SET_SUBCATEGORY_FILTER payload) =
     state\<lparr>subcategoryFilter := payload, filtersChanged := True\<rparr>"
| "reducer state (SET_DATE_RANGE payload) =
     state\<lparr>dateRange := payload, filtersChanged := True\<rparr>"
| "reducer state (SET_LIMIT payload) = state\<lparr>limit := payload, filtersChanged := True\<rparr>"
| "reducer state (SET_LOADING payload) = state\<lparr>loading := payload\<rparr>"
| "reducer state (SET_SEARCH_QUERY payload) =
     state\<lparr>searchQuery := payload, filtersChanged := True\<rparr>"
| "reducer state (SET_PAGE_BY_STATUS key page) =
     state\<lparr>pageByStatus := setKey (pageByStatus state) key page\<rparr>"
| "reducer state (SET_HAS_MORE_BY_STATUS key hasMore) =
     state\<lparr>hasMoreByStatus := setKey (hasMoreByStatus state) key hasMore\<rparr>"
| "reducer state (SET_TOTAL_COUNT_BY_STATUS payload) = state\<lparr>totalCountByStatus := payload\<rparr>"
| "reducer state RESET_PAGINATION =
     state\<lparr>pageByStatus := \<lparr>to_do = 0, in_progress = 0, done' = 0\<rparr>,
           hasMoreByStatus := \<lparr>to_do = True, in_progress = True, done' = True\<rparr>,
           tasksByStatus := \<lparr>to_do = [], in_progress = [], done' = []\<rparr>\<rparr>"
| "reducer state (SET_FILTERS_CHANGED payload) = state\<lparr>filtersChanged := payload\<rparr>"
| "reducer state (SET_SELECTED_COUNTRIES payload) =
     state\<lparr>selectedCountries := payload, filtersChanged := True\<rparr>"
| "reducer state (SET_COUNTRY_OPTIONS payload) = state\<lparr>countryOptions := payload\<rparr>"
| "reducer state (SET_HOURLY_BUDGET_TYPE payload) =
     state\<lparr>hourlyBudgetType := payload, filtersChanged := True\<rparr>"
| "reducer state (SET_PRICE_RANGE payload) =
     state\<lparr>priceRange := payload, filtersChanged := True\<rparr>"

definition statusKeyToStatusLabel :: "StatusKey \<Rightarrow> string" where
  "statusKeyToStatusLabel key =
     (if key = To_do then ''To Do'' else if key = In_progress then ''In Progress'' else ''Done'')"

definition PAGE_SIZE :: nat where
  "PAGE_SIZE = 10"

section \<open>The remote gateway\<close>

text \<open>
  \<^verbatim>\<open>supabase.rpc\<close> resolves to an object \<^verbatim>\<open>{data, error}\<close>; either field may be
  \<^verbatim>\<open>null\<close>. The hosted backend is not part of the repository, so each operation takes
  the backend as a parameter: one function per remote procedure, from the parameters the
  code sends to the response it gets. Every call issued is recorded in a trace. The last
  two belong to the earlier variant of the hook: the page procedure under its former name
  \<^verbatim>\<open>get_tasks_by_status\<close>, and the exact row count of a filtered select on the
  \<^verbatim>\<open>projects\<close> table (\<^verbatim>\<open>null\<close> when the query fails).
\<close>

record 'a response =
  data :: "'a option"
  error :: "string option"

record task_query =
  task_status :: string
  category_filter :: "string option"
  subcategory_filter :: "string option"
  date_from :: "string option"
  date_to :: "string option"
  search_query :: "string option"
  country_filter :: "string list option"
  hourly_budget_type :: "string option"
  price_from :: "int option"
  price_to :: "int option"

datatype rpc_call =
    Get_task_by_status task_query nat nat
  | Get_task_count_by_status task_query
  | Update_task_status string string
  | Get_tasks_by_status task_query nat nat
  | Select_count task_query

record backend =
  get_task_by_status :: "task_query \<Rightarrow> nat \<Rightarrow> nat \<Rightarrow> Task list response"
  get_task_count_by_status :: "task_query \<Rightarrow> nat response"
  update_task_status :: "string \<Rightarrow> string \<Rightarrow> unit response"
  get_tasks_by_status :: "task_query \<Rightarrow> nat \<Rightarrow> nat \<Rightarrow> Task list response"
  select_count :: "task_query \<Rightarrow> nat option"

text \<open>
  What an operation of the hook does to the outside: the actions it dispatches to the
  reducer, in order, the remote calls it issues, and the lines it writes with
  \<^verbatim>\<open>console.error\<close>. An operation reads the store through \<^verbatim>\<open>stateRef.current\<close> once,
  when it starts; that snapshot is its \<open>currentState\<close> argument.
\<close>

record outcome =
  dispatched :: "Action list"
  calls :: "rpc_call list"
  logged :: "string list"

definition nothing :: outcome where
  "nothing = \<lparr>dispatched = [], calls = [], logged = []\<rparr>"

definition andThen :: "outcome \<Rightarrow> outcome \<Rightarrow> outcome" where
  "andThen a b =
     \<lparr>dispatched = dispatched a @ dispatched b, calls = calls a @ calls b,
      logged = logged a @ logged b\<rparr>"

definition run :: "State \<Rightarrow> outcome \<Rightarrow> State" where
  "run state out = foldl reducer state (dispatched out)"

text \<open>\<^verbatim>\<open>String.prototype.toUpperCase\<close>, on the ASCII letters.\<close>

definition toUpperCase :: "string \<Rightarrow> string" where
  "toUpperCase s =
     map (\<lambda>c. let n = (of_char c :: nat) in if 97 \<le> n \<and> n \<le> 122 then char_of (n - 32) else c) s"

record fetchFilters =
  categoryFilterF :: "string option"
  subcategoryFilterF :: "string option"
  dateRangeF :: "string range option"
  searchQueryF :: "string option"
  limitF :: "nat option"
  offsetF :: "nat option"
  selectedCountriesF :: "string list option"
  hourlyBudgetTypeF :: "string option"
  priceFromF :: "int option"
  priceToF :: "int option"

text \<open>
  \<^verbatim>\<open>getTaskCountByStatus\<close>: the count, the call issued and the lines logged. An error
  response is logged and counted as 0; a \<^verbatim>\<open>null\<close> count is 0 as well (\<^verbatim>\<open>data ?? 0\<close>).
\<close>

definition getTaskCountByStatus ::
  "backend \<Rightarrow> string \<Rightarrow> string option \<Rightarrow> string option \<Rightarrow> string range \<Rightarrow> string option \<Rightarrow>
   string list \<Rightarrow> string option \<Rightarrow> int range \<Rightarrow> nat \<times> rpc_call list \<times> string list" where
  "getTaskCountByStatus be status' category' subcategory' dateRange' searchQuery'
       selectedCountries' hourlyBudgetType' priceRange' =
     (let q = \<lparr>task_status = status',
               category_filter = category',
               subcategory_filter = subcategory',
               date_from = range_from dateRange',
               date_to = range_to dateRange',
               search_query = searchQuery',
               country_filter = (if length selectedCountries' > 0 then Some selectedCountries' else None),
               hourly_budget_type =
                 (if hourlyBudgetType' = Some ''null'' then Some ''null''
                  else map_option toUpperCase hourlyBudgetType'),
               price_from = range_from priceRange',
               price_to = range_to priceRange'\<rparr>;
          r = get_task_count_by_status be q
      in case error r of
           Some e \<Rightarrow> (0, [Get_task_count_by_status q], [''Count error for status '' @ status' @ '':''])
         | None \<Rightarrow> (case data r of None \<Rightarrow> 0 | Some n \<Rightarrow> n, [Get_task_count_by_status q], []))"

text \<open>
  \<^verbatim>\<open>fetchTasksByStatus\<close>: an error response is logged and gives the empty list; otherwise
  the function returns \<^verbatim>\<open>data as Task[]\<close>, which is \<^verbatim>\<open>null\<close> (here \<open>None\<close>) when the
  response carries no data. The empty string is falsy, so an empty
  \<^verbatim>\<open>hourlyBudgetType\<close> is sent as \<^verbatim>\<open>null\<close>.
\<close>

definition fetchTasksByStatus ::
  "backend \<Rightarrow> string \<Rightarrow> fetchFilters \<Rightarrow> Task list option \<times> rpc_call list \<times> string list" where
  "fetchTasksByStatus be status' filters =
     (let offset = (case offsetF filters of None \<Rightarrow> 0 | Some n \<Rightarrow> n);
          effectiveLimit = (case limitF filters of None \<Rightarrow> PAGE_SIZE | Some n \<Rightarrow> n);
          hourlyBudgetTypeParam =
            (case hourlyBudgetTypeF filters of
               None \<Rightarrow> None
             | Some h \<Rightarrow>
                 if h = [] then None
                 else if h = ''null'' then Some ''null''
                 else Some (toUpperCase h));
          q = \<lparr>task_status = status',
               category_filter = categoryFilterF filters,
               subcategory_filter = subcategoryFilterF filters,
               date_from = (case dateRangeF filters of None \<Rightarrow> None | Some d \<Rightarrow> range_from d),
               date_to = (case dateRangeF filters of None \<Rightarrow> None | Some d \<Rightarrow> range_to d),
               search_query = searchQueryF filters,
               country_filter =
                 (case selectedCountriesF filters of
                    None \<Rightarrow> None
                  | Some cs \<Rightarrow> if length cs \<noteq> 0 then Some cs else None),
               hourly_budget_type = hourlyBudgetTypeParam,
               price_from = priceFromF filters,
               price_to = priceToF filters\<rparr>;
          r = get_task_by_status be q effectiveLimit offset
      in case error r of
           Some e \<Rightarrow> (Some [], [Get_task_by_status q effectiveLimit offset], [''Error fetching tasks:''])
         | None \<Rightarrow> (data r, [Get_task_by_status q effectiveLimit offset], []))"

section \<open>Operations of the hook\<close>

text \<open>JavaScript truthiness of a \<^verbatim>\<open>string | null\<close>: \<^verbatim>\<open>null\<close> and \<^verbatim>\<open>""\<close> are falsy.\<close>

definition falsy :: "string option \<Rightarrow> bool" where
  "falsy v = (v = None \<or> v = Some [])"

definition countForKey :: "backend \<Rightarrow> State \<Rightarrow> StatusKey \<Rightarrow> nat \<times> rpc_call list \<times> string list" where
  "countForKey be currentState key =
     (let label = statusKeyToStatusLabel key;
          isFilteredStatus = (falsy (statusFilter currentState) \<or> statusFilter currentState = Some label)
      in getTaskCountByStatus be label
           (if isFilteredStatus then categoryFilter currentState else None)
           (if isFilteredStatus then subcategoryFilter currentState else None)
           (if isFilteredStatus then dateRange currentState else \<lparr>range_from = None, range_to = None\<rparr>)
           (if isFilteredStatus then searchQuery currentState else None)
           (if isFilteredStatus then selectedCountries currentState else [])
           (if isFilteredStatus then hourlyBudgetType currentState else None)
           (if isFilteredStatus then priceRange currentState else \<lparr>range_from = None, range_to = None\<rparr>))"

text \<open>
  \<^verbatim>\<open>fetchStatusWiseCounts\<close>: one count call per status, written into a copy of the
  current totals, then one \<^verbatim>\<open>SET_TOTAL_COUNT_BY_STATUS\<close>.
\<close>

definition fetchStatusWiseCounts :: "backend \<Rightarrow> State \<Rightarrow> outcome" where
  "fetchStatusWiseCounts be currentState =
     (let results = map (\<lambda>key. (key, countForKey be currentState key)) statusKeyArray;
          updatedCounts =
            foldl (\<lambda>acc (key, r). setKey acc key (fst r)) (totalCountByStatus currentState) results
      in \<lparr>dispatched = [SET_TOTAL_COUNT_BY_STATUS updatedCounts],
          calls = concat (map (\<lambda>(key, r). fst (snd r)) results),
          logged = concat (map (\<lambda>(key, r). snd (snd r)) results)\<rparr>)"

text \<open>The body of the per-status callback of \<^verbatim>\<open>loadMoreTasks\<close> up to the fetch.\<close>

definition fetchPage ::
  "backend \<Rightarrow> bool \<Rightarrow> State \<Rightarrow> StatusKey \<Rightarrow> Task list option \<times> rpc_call list \<times> string list" where
  "fetchPage be reset currentState key =
     (let label = statusKeyToStatusLabel key;
          page = (if reset then 0 else getKey (pageByStatus currentState) key);
          effectiveLimit = (case limit currentState of None \<Rightarrow> PAGE_SIZE | Some l \<Rightarrow> l);
          offset = page * effectiveLimit;
          shouldApplyFilters =
            (falsy (statusFilter currentState) \<or> statusFilter currentState = Some label)
      in fetchTasksByStatus be label
           \<lparr>categoryFilterF = (if shouldApplyFilters then categoryFilter currentState else None),
            subcategoryFilterF = (if shouldApplyFilters then subcategoryFilter currentState else None),
            dateRangeF =
              Some (if shouldApplyFilters then dateRange currentState
                    else \<lparr>range_from = None, range_to = None\<rparr>),
            searchQueryF = (if shouldApplyFilters then searchQuery currentState else None),
            limitF = Some (case limit currentState of None \<Rightarrow> PAGE_SIZE | Some l \<Rightarrow> l),
            offsetF = Some offset,
            selectedCountriesF = Some (if shouldApplyFilters then selectedCountries currentState else []),
            hourlyBudgetTypeF = (if shouldApplyFilters then hourlyBudgetType currentState else None),
            priceFromF = (if shouldApplyFilters then range_from (priceRange currentState) else None),
            priceToF = (if shouldApplyFilters then range_to (priceRange currentState) else None)\<rparr>)"

text \<open>
  Without reset, the callback appends the page to the tasks of the snapshot and sets the
  page and the has-more flag of its status. A \<^verbatim>\<open>null\<close> page makes the spread
  \<^verbatim>\<open>[...existingTasks, ...tasks]\<close> throw: that status dispatches nothing.
\<close>

definition appendPage :: "nat \<Rightarrow> State \<Rightarrow> StatusKey \<Rightarrow> Task list option \<Rightarrow> Action list" where
  "appendPage effectiveLimit currentState key fetched =
     (case fetched of
        None \<Rightarrow> []
      | Some tasks \<Rightarrow>
          [UPDATE_TASKS_FOR_STATUS key (getKey (tasksByStatus currentState) key @ tasks),
           SET_PAGE_BY_STATUS key (getKey (pageByStatus currentState) key + 1),
           SET_HAS_MORE_BY_STATUS key (length tasks = effectiveLimit)])"

text \<open>
  With reset, \<^verbatim>\<open>results.forEach\<close> fills \<^verbatim>\<open>newTasksByStatus\<close> and dispatches page 1
  and the has-more flag per status. \<^verbatim>\<open>tasks.length\<close> throws on a \<^verbatim>\<open>null\<close> page, after
  the page of that status was dispatched; the loop stops there and
  \<^verbatim>\<open>setTasksByStatus\<close> is not reached (result \<open>None\<close>).
\<close>

fun resetResults ::
  "nat \<Rightarrow> (StatusKey \<times> Task list option) list \<Rightarrow> Task list byStatus \<Rightarrow>
   Action list \<times> Task list byStatus option" where
  "resetResults effectiveLimit [] newTasksByStatus = ([], Some newTasksByStatus)"
| "resetResults effectiveLimit ((key, None) # rest) newTasksByStatus =
     ([SET_PAGE_BY_STATUS key 1], None)"
| "resetResults effectiveLimit ((key, Some tasks) # rest) newTasksByStatus =
     (let (acts, res) = resetResults effectiveLimit rest (setKey newTasksByStatus key tasks)
      in (SET_PAGE_BY_STATUS key 1 # SET_HAS_MORE_BY_STATUS key (length tasks = effectiveLimit) # acts,
          res))"

definition shouldLoadMore :: "bool \<Rightarrow> State \<Rightarrow> StatusKey list \<Rightarrow> bool" where
  "shouldLoadMore reset currentState statuses =
     list_ex (\<lambda>key. reset \<or>
                (length (getKey (tasksByStatus currentState) key)
                   < getKey (totalCountByStatus currentState) key
                 \<and> getKey (hasMoreByStatus currentState) key)) statuses"

text \<open>
  \<^verbatim>\<open>loadMoreTasks(reset, specificStatus)\<close>. The fetches of the statuses run concurrently
  and each dispatches for its own status only; the model lists their dispatches in the
  order of \<open>statuses\<close>.
\<close>

definition loadMoreTasks :: "backend \<Rightarrow> bool \<Rightarrow> StatusKey option \<Rightarrow> State \<Rightarrow> outcome" where
  "loadMoreTasks be reset specificStatus currentState =
     (if loading currentState \<and> \<not> reset then nothing
      else
        let statuses = (case specificStatus of Some k \<Rightarrow> [k] | None \<Rightarrow> statusKeyArray)
        in if \<not> shouldLoadMore reset currentState statuses \<and> \<not> reset then nothing
           else
             let effectiveLimit = (case limit currentState of None \<Rightarrow> PAGE_SIZE | Some l \<Rightarrow> l);
                 results = map (\<lambda>key. (key, fetchPage be reset currentState key)) statuses;
                 fetchCalls = concat (map (\<lambda>(key, r). fst (snd r)) results);
                 fetchLogs = concat (map (\<lambda>(key, r). snd (snd r)) results)
             in if reset then
                  (let (acts, res) =
                         resetResults effectiveLimit (map (\<lambda>(key, r). (key, fst r)) results)
                           \<lparr>to_do = [], in_progress = [], done' = []\<rparr>
                   in \<lparr>dispatched =
                         SET_LOADING True # acts
                         @ (case res of Some newTasksByStatus \<Rightarrow> [SET_TASKS_BY_STATUS newTasksByStatus]
                            | None \<Rightarrow> [])
                         @ [SET_LOADING False, SET_FILTERS_CHANGED False],
                       calls = fetchCalls,
                       logged = fetchLogs
                         @ (case res of None \<Rightarrow> [''Error in loadMoreTasks:''] | Some n \<Rightarrow> [])\<rparr>)
                else
                  \<lparr>dispatched =
                     SET_LOADING True
                     # concat (map (\<lambda>(key, r). appendPage effectiveLimit currentState key (fst r)) results)
                     @ [SET_LOADING False],
                   calls = fetchCalls,
                   logged = fetchLogs
                     @ (if list_ex (\<lambda>(key, r). fst r = None) results
                        then [''Error in loadMoreTasks:''] else [])\<rparr>)"

text \<open>
  \<^verbatim>\<open>xs.splice(start, 0, item)\<close> on a copy: a negative \<open>start\<close> counts from the end and
  stops at 0, a \<open>start\<close> beyond the length is the length.
\<close>

definition spliceStart :: "nat \<Rightarrow> int \<Rightarrow> nat" where
  "spliceStart len start =
     (if start < 0 then nat (max (int len + start) 0) else nat (min start (int len)))"

definition spliceInsert :: "'a list \<Rightarrow> int \<Rightarrow> 'a \<Rightarrow> 'a list" where
  "spliceInsert xs start item =
     take (spliceStart (length xs) start) xs @ item # drop (spliceStart (length xs) start) xs"

text \<open>
  \<^verbatim>\<open>moveTask(taskId, sourceCol, destCol, destIndex)\<close>. The count refresh is awaited after
  the status update, so it reads the store after the optimistic dispatch.
\<close>

definition moveTask ::
  "backend \<Rightarrow> string \<Rightarrow> StatusKey \<Rightarrow> StatusKey \<Rightarrow> int \<Rightarrow> State \<Rightarrow> outcome" where
  "moveTask be taskId sourceCol destCol destIndex currentState =
     (case find (\<lambda>t. task_id t = taskId) (getKey (tasksByStatus currentState) sourceCol) of
        None \<Rightarrow> nothing
      | Some task \<Rightarrow>
          let newSourceTasks =
                filter (\<lambda>t. task_id t \<noteq> taskId) (getKey (tasksByStatus currentState) sourceCol);
              updatedTask = task\<lparr>status := statusKeyToStatusLabel destCol\<rparr>;
              newDestTasks =
                spliceInsert
                  (filter (\<lambda>t. task_id t \<noteq> taskId) (getKey (tasksByStatus currentState) destCol))
                  destIndex updatedTask;
              optimistic =
                \<lparr>dispatched =
                   [SET_TASKS_BY_STATUS
                      (setKey (setKey (tasksByStatus currentState) sourceCol newSourceTasks)
                         destCol newDestTasks)],
                 calls = [Update_task_status (task_id task) (status updatedTask)],
                 logged =
                   (case error (update_task_status be (task_id task) (status updatedTask)) of
                      Some e \<Rightarrow> [''Failed to update task status:'']
                    | None \<Rightarrow> [])\<rparr>
          in andThen optimistic (fetchStatusWiseCounts be (run currentState optimistic)))"

text \<open>
  The effect on the filter fields. React runs it after a render in which one of its
  dependencies differs from the previous render; the callbacks among them never change,
  so that is a change of one of the nine filter fields (compared here by value; a new
  object with the same content also counts for React). The three calls of the body start
  synchronously, on the same snapshot.
\<close>

definition filtersChangedEffect :: "backend \<Rightarrow> State \<Rightarrow> outcome" where
  "filtersChangedEffect be state =
     (if filtersChanged state then
        andThen \<lparr>dispatched = [RESET_PAGINATION], calls = [], logged = []\<rparr>
          (andThen (loadMoreTasks be True None state) (fetchStatusWiseCounts be state))
      else nothing)"

definition effectDepsChanged :: "State \<Rightarrow> State \<Rightarrow> bool" where
  "effectDepsChanged prev state =
     (statusFilter prev \<noteq> statusFilter state \<or> categoryFilter prev \<noteq> categoryFilter state
      \<or> subcategoryFilter prev \<noteq> subcategoryFilter state \<or> dateRange prev \<noteq> dateRange state
      \<or> searchQuery prev \<noteq> searchQuery state \<or> limit prev \<noteq> limit state
      \<or> selectedCountries prev \<noteq> selectedCountries state
      \<or> hourlyBudgetType prev \<noteq> hourlyBudgetType state \<or> priceRange prev \<noteq> priceRange state)"

definition useEffectFilters :: "backend \<Rightarrow> State \<Rightarrow> State \<Rightarrow> outcome" where
  "useEffectFilters be prev state =
     (if effectDepsChanged prev state then filtersChangedEffect be state else nothing)"

text \<open>
  The function wrapped by \<^verbatim>\<open>debounce(..., 1000)\<close> in \<^verbatim>\<open>handleRealtimeUpdate\<close>, run on
  the snapshot of the moment the timer fires.
\<close>

definition realtimeUpdate :: "backend \<Rightarrow> State \<Rightarrow> outcome" where
  "realtimeUpdate be currentState =
     (if \<not> loading currentState then
        andThen (loadMoreTasks be True None currentState) (fetchStatusWiseCounts be currentState)
      else nothing)"

text \<open>
  \<^verbatim>\<open>lodash.debounce(f, wait)\<close> with its default options, over a clock in milliseconds:
  from the times at which the debounced function is called (ascending), the times at
  which \<open>f\<close> runs. A call is followed by a run \<open>wait\<close> later unless another call comes
  first, which restarts the timer.
\<close>

fun debounce :: "nat \<Rightarrow> nat list \<Rightarrow> nat list" where
  "debounce wait [] = []"
| "debounce wait [t] = [t + wait]"
| "debounce wait (t # t' # ts) =
     (if t' < t + wait then debounce wait (t' # ts) else (t + wait) # debounce wait (t' # ts))"

text \<open>
  \<^verbatim>\<open>handleRealtimeUpdate\<close> over a run of change notifications: what each run of the
  debounced function does, given the store as it is at each moment.
\<close>

definition handleRealtimeUpdate :: "backend \<Rightarrow> (nat \<Rightarrow> State) \<Rightarrow> nat list \<Rightarrow> outcome list" where
  "handleRealtimeUpdate be stateAt notifications =
     map (\<lambda>t. realtimeUpdate be (stateAt t)) (debounce 1000 notifications)"

section \<open>The earlier variant of the hook\<close>

text \<open>
  The sources hold a second, earlier text of \<^verbatim>\<open>useTasks\<close>. Its store has the fields of
  \<open>State\<close> up to \<open>totalCountByStatus\<close> and its reducer handles the actions dispatched
  below as \<open>reducer\<close> does; its filter actions only set their field. Its operations read
  the state of the render that created them (\<open>state\<close>), \<^verbatim>\<open>loadMoreTasks\<close> has no check
  of \<open>loading\<close> or of the totals and awaits the statuses one after the other, the flag
  \<open>hasMore\<close> is \<^verbatim>\<open>fetched.length > 0\<close>, and the counts come from a filtered select on the
  table. The functions of this variant carry the suffix \<open>_legacy\<close>.
\<close>

definition pageSize :: nat where
  "pageSize = 10"

text \<open>\<^verbatim>\<open>!error && data ? (data as Task[]) : []\<close>: an error or missing data is the empty list.\<close>

definition fetchTasksByStatus_legacy ::
  "backend \<Rightarrow> State \<Rightarrow> string \<Rightarrow> fetchFilters \<Rightarrow> Task list \<times> rpc_call list" where
  "fetchTasksByStatus_legacy be state status' filters =
     (let offset = (case offsetF filters of None \<Rightarrow> 0 | Some n \<Rightarrow> n);
          limitCount =
            (case limitF filters of
               Some l \<Rightarrow> l
             | None \<Rightarrow> (case limit state of Some l \<Rightarrow> l | None \<Rightarrow> pageSize));
          q = \<lparr>task_status = status',
               category_filter = categoryFilterF filters,
               subcategory_filter = subcategoryFilterF filters,
               date_from = (case dateRangeF filters of None \<Rightarrow> None | Some d \<Rightarrow> range_from d),
               date_to = (case dateRangeF filters of None \<Rightarrow> None | Some d \<Rightarrow> range_to d),
               search_query = searchQueryF filters,
               country_filter = None,
               hourly_budget_type = None,
               price_from = None,
               price_to = None\<rparr>;
          r = get_tasks_by_status be q limitCount offset
      in (case error r of
            Some e \<Rightarrow> []
          | None \<Rightarrow> (case data r of None \<Rightarrow> [] | Some rows \<Rightarrow> rows),
          [Get_tasks_by_status q limitCount offset]))"

text \<open>The body of the loop of \<^verbatim>\<open>loadMoreTasks\<close> up to the fetch, and the loop.\<close>

definition fetchPage_legacy :: "backend \<Rightarrow> bool \<Rightarrow> State \<Rightarrow> StatusKey \<Rightarrow> Task list \<times> rpc_call list" where
  "fetchPage_legacy be reset state key =
     (let label = statusKeyToStatusLabel key;
          page = (if reset then 0 else getKey (pageByStatus state) key);
          offset = page * (case limit state of None \<Rightarrow> pageSize | Some l \<Rightarrow> l);
          applies = (falsy (statusFilter state) \<or> statusFilter state = Some label)
      in fetchTasksByStatus_legacy be state label
           \<lparr>categoryFilterF = (if applies then categoryFilter state else None),
            subcategoryFilterF = (if applies then subcategoryFilter state else None),
            dateRangeF =
              Some (if applies then dateRange state else \<lparr>range_from = None, range_to = None\<rparr>),
            searchQueryF = (if applies then searchQuery state else None),
            limitF = limit state,
            offsetF = Some offset,
            selectedCountriesF = None,
            hourlyBudgetTypeF = None,
            priceFromF = None,
            priceToF = None\<rparr>)"

fun loadLoop_legacy ::
  "backend \<Rightarrow> bool \<Rightarrow> State \<Rightarrow> StatusKey list \<Rightarrow> Task list byStatus \<Rightarrow>
   Task list byStatus \<times> Action list \<times> rpc_call list" where
  "loadLoop_legacy be reset state [] newTasksByStatus = (newTasksByStatus, [], [])"
| "loadLoop_legacy be reset state (key # rest) newTasksByStatus =
     (let (fetched, fetchCalls) = fetchPage_legacy be reset state key;
          page = (if reset then 0 else getKey (pageByStatus state) key);
          (final, acts, restCalls) =
            loadLoop_legacy be reset state rest
              (setKey newTasksByStatus key
                 (if reset then fetched else getKey (tasksByStatus state) key @ fetched))
      in (final,
          SET_PAGE_BY_STATUS key (page + 1) # SET_HAS_MORE_BY_STATUS key (length fetched > 0) # acts,
          fetchCalls @ restCalls))"

definition loadMoreTasks_legacy :: "backend \<Rightarrow> bool \<Rightarrow> StatusKey option \<Rightarrow> State \<Rightarrow> outcome" where
  "loadMoreTasks_legacy be reset specificStatus state =
     (let statuses = (case specificStatus of Some k \<Rightarrow> [k] | None \<Rightarrow> statusKeyArray);
          (newTasksByStatus, acts, fetchCalls) =
            loadLoop_legacy be reset state statuses
              (if reset then \<lparr>to_do = [], in_progress = [], done' = []\<rparr> else tasksByStatus state)
      in \<lparr>dispatched =
            SET_LOADING True # acts @ [SET_TASKS_BY_STATUS newTasksByStatus, SET_LOADING False],
          calls = fetchCalls,
          logged = []\<rparr>)"

text \<open>
  \<^verbatim>\<open>fetchStatusWiseCounts\<close> of the earlier variant: a filter is added to the select when
  its value is truthy, the date range only when both ends are; a count that is not a
  number leaves the 0.
\<close>

definition truthy :: "string option \<Rightarrow> bool" where
  "truthy v = (\<not> falsy v)"

definition countQuery_legacy :: "State \<Rightarrow> StatusKey \<Rightarrow> task_query" where
  "countQuery_legacy state key =
     (let label = statusKeyToStatusLabel key;
          applies = (falsy (statusFilter state) \<or> statusFilter state = Some label);
          ranged = (applies \<and> truthy (range_from (dateRange state)) \<and> truthy (range_to (dateRange state)))
      in \<lparr>task_status = label,
          category_filter =
            (if applies \<and> truthy (categoryFilter state) then categoryFilter state else None),
          subcategory_filter =
            (if applies \<and> truthy (subcategoryFilter state) then subcategoryFilter state else None),
          date_from = (if ranged then range_from (dateRange state) else None),
          date_to = (if ranged then range_to (dateRange state) else None),
          search_query = (if applies \<and> truthy (searchQuery state) then searchQuery state else None),
          country_filter = None,
          hourly_budget_type = None,
          price_from = None,
          price_to = None\<rparr>)"

definition fetchStatusWiseCounts_legacy :: "backend \<Rightarrow> State \<Rightarrow> outcome" where
  "fetchStatusWiseCounts_legacy be state =
     (let counts =
            foldl (\<lambda>acc key.
                     case select_count be (countQuery_legacy state key) of
                       Some n \<Rightarrow> setKey acc key n
                     | None \<Rightarrow> acc)
              \<lparr>to_do = 0, in_progress = 0, done' = 0\<rparr> statusKeyArray
      in \<lparr>dispatched = [SET_TOTAL_COUNT_BY_STATUS counts],
          calls = map (\<lambda>key. Select_count (countQuery_legacy state key)) statusKeyArray,
          logged = []\<rparr>)"

text \<open>
  \<^verbatim>\<open>moveTask\<close> of the earlier variant has the text of the later one; its count refresh is
  the one above, on the state of the same render.
\<close>

definition moveTask_legacy ::
  "backend \<Rightarrow> string \<Rightarrow> StatusKey \<Rightarrow> StatusKey \<Rightarrow> int \<Rightarrow> State \<Rightarrow> outcome" where
  "moveTask_legacy be taskId sourceCol destCol destIndex state =
     (case find (\<lambda>t. task_id t = taskId) (getKey (tasksByStatus state) sourceCol) of
        None \<Rightarrow> nothing
      | Some task \<Rightarrow>
          let newSourceTasks =
                filter (\<lambda>t. task_id t \<noteq> taskId) (getKey (tasksByStatus state) sourceCol);
              updatedTask = task\<lparr>status := statusKeyToStatusLabel destCol\<rparr>;
              newDestTasks =
                spliceInsert
                  (filter (\<lambda>t. task_id t \<noteq> taskId) (getKey (tasksByStatus state) destCol))
                  destIndex updatedTask;
              optimistic =
                \<lparr>dispatched =
                   [SET_TASKS_BY_STATUS
                      (setKey (setKey (tasksByStatus state) sourceCol newSourceTasks)
                         destCol newDestTasks)],
                 calls = [Update_task_status (task_id task) (status updatedTask)],
                 logged =
                   (case error (update_task_status be (task_id task) (status updatedTask)) of
                      Some e \<Rightarrow> [''Failed to update task status:'']
                    | None \<Rightarrow> [])\<rparr>
          in andThen optimistic (fetchStatusWiseCounts_legacy be state))"

text \<open>
  \<^verbatim>\<open>debouncedRealtimeUpdate\<close>, with a window of 300 ms. The subscription is made once,
  on mount, so the function it calls belongs to the first render and reads that render's
  state.
\<close>

definition realtimeUpdate_legacy :: "backend \<Rightarrow> State \<Rightarrow> outcome" where
  "realtimeUpdate_legacy be state =
     andThen (loadMoreTasks_legacy be True None state) (fetchStatusWiseCounts_legacy be state)"

definition debouncedRealtimeUpdate :: "backend \<Rightarrow> State \<Rightarrow> nat list \<Rightarrow> outcome list" where
  "debouncedRealtimeUpdate be mountState notifications =
     map (\<lambda>t. realtimeUpdate_legacy be mountState) (debounce 300 notifications)"

section \<open>The comment thread of the task detail modal\<close>

record Comment =
  comment_id :: string
  content :: string
  created_at_c :: string
  updated_at :: "string option"
  user_id :: "string option"
  user_email :: string
  parent_id :: "string option"

text \<open>
  \<^verbatim>\<open>renderComments(parentId)\<close> returns one element per comment whose \<^verbatim>\<open>parent_id\<close> is
  \<open>parentId\<close>, in list order; the element of a comment holds, in its indented container,
  \<^verbatim>\<open>renderComments(c.id)\<close>. The recursion has no bound of its own and does not end on a
  cycle of parent references, so the model counts the depth: \<open>None\<close> is a call that
  would need more than \<open>fuel\<close> nested calls. The modal renders \<^verbatim>\<open>renderComments()\<close>,
  that is \<open>parentId = null\<close>.
\<close>

datatype element = Element Comment "element list"

fun collect :: "'a option list \<Rightarrow> 'a list option" where
  "collect [] = Some []"
| "collect (None # rest) = None"
| "collect (Some x # rest) = (case collect rest of None \<Rightarrow> None | Some xs \<Rightarrow> Some (x # xs))"

fun renderComments :: "nat \<Rightarrow> Comment list \<Rightarrow> string option \<Rightarrow> element list option" where
  "renderComments 0 comments parentId = None"
| "renderComments (Suc fuel) comments parentId =
     collect
       (map (\<lambda>c. case renderComments fuel comments (Some (comment_id c)) of
                   None \<Rightarrow> None
                 | Some nested \<Rightarrow> Some (Element c nested))
          (filter (\<lambda>c. parent_id c = parentId) comments))"

section \<open>Auxiliary notions for the properties\<close>

subsection \<open>Remote calls of a trace\<close>

text \<open>
  The status updates among the remote calls of a trace; the page fetches, as status label
  and offset; the count calls, by status label.
\<close>

fun isStatusUpdate :: "rpc_call \<Rightarrow> bool" where
  "isStatusUpdate (Update_task_status i l) = True"
| "isStatusUpdate c = False"

fun fetchedPages :: "rpc_call list \<Rightarrow> (string \<times> nat) list" where
  "fetchedPages [] = []"
| "fetchedPages (Get_task_by_status q l off # cs) = (task_status q, off) # fetchedPages cs"
| "fetchedPages (Get_tasks_by_status q l off # cs) = (task_status q, off) # fetchedPages cs"
| "fetchedPages (c # cs) = fetchedPages cs"

fun countedStatuses :: "rpc_call list \<Rightarrow> string list" where
  "countedStatuses [] = []"
| "countedStatuses (Get_task_count_by_status q # cs) = task_status q # countedStatuses cs"
| "countedStatuses (Select_count q # cs) = task_status q # countedStatuses cs"
| "countedStatuses (c # cs) = countedStatuses cs"

subsection \<open>Closed forms\<close>

text \<open>
  The lists \<^verbatim>\<open>moveTask\<close> hands to \<^verbatim>\<open>setTasksByStatus\<close>: the task is filtered out of the
  source and of the destination list and spliced into the destination list with the
  destination's status label; in the object literal the destination key is written last.
\<close>

definition relocated ::
  "Task list byStatus \<Rightarrow> string \<Rightarrow> StatusKey \<Rightarrow> StatusKey \<Rightarrow> int \<Rightarrow> Task \<Rightarrow> Task list byStatus" where
  "relocated tbs taskId sourceCol destCol destIndex task =
     setKey (setKey tbs sourceCol (filter (\<lambda>t. task_id t \<noteq> taskId) (getKey tbs sourceCol)))
       destCol
       (spliceInsert (filter (\<lambda>t. task_id t \<noteq> taskId) (getKey tbs destCol)) destIndex
          (task\<lparr>status := statusKeyToStatusLabel destCol\<rparr>))"

text \<open>
  The parameters \<^verbatim>\<open>fetchTasksByStatus\<close> and \<^verbatim>\<open>getTaskCountByStatus\<close> send, and the
  parameters of the page fetch and of the count call that \<^verbatim>\<open>loadMoreTasks\<close> and
  \<^verbatim>\<open>fetchStatusWiseCounts\<close> issue for a status.
\<close>

definition fetchQuery :: "string \<Rightarrow> fetchFilters \<Rightarrow> task_query" where
  "fetchQuery status' filters =
     \<lparr>task_status = status',
      category_filter = categoryFilterF filters,
      subcategory_filter = subcategoryFilterF filters,
      date_from = (case dateRangeF filters of None \<Rightarrow> None | Some d \<Rightarrow> range_from d),
      date_to = (case dateRangeF filters of None \<Rightarrow> None | Some d \<Rightarrow> range_to d),
      search_query = searchQueryF filters,
      country_filter =
        (case selectedCountriesF filters of
           None \<Rightarrow> None
         | Some cs \<Rightarrow> if length cs \<noteq> 0 then Some cs else None),
      hourly_budget_type =
        (case hourlyBudgetTypeF filters of
               None \<Rightarrow> None
             | Some h \<Rightarrow>
                 if h = [] then None
                 else if h = ''null'' then Some ''null''
                 else Some (toUpperCase h)),
      price_from = priceFromF filters,
      price_to = priceToF filters\<rparr>"

definition countQuery ::
  "string \<Rightarrow> string option \<Rightarrow> string option \<Rightarrow> string range \<Rightarrow> string option \<Rightarrow>
   string list \<Rightarrow> string option \<Rightarrow> int range \<Rightarrow> task_query" where
  "countQuery status' category' subcategory' dateRange' searchQuery' selectedCountries'
       hourlyBudgetType' priceRange' =
     \<lparr>task_status = status',
      category_filter = category',
      subcategory_filter = subcategory',
      date_from = range_from dateRange',
      date_to = range_to dateRange',
      search_query = searchQuery',
      country_filter = (if length selectedCountries' > 0 then Some selectedCountries' else None),
      hourly_budget_type =
        (if hourlyBudgetType' = Some ''null'' then Some ''null''
         else map_option toUpperCase hourlyBudgetType'),
      price_from = range_from priceRange',
      price_to = range_to priceRange'\<rparr>"

definition pageQuery :: "State \<Rightarrow> StatusKey \<Rightarrow> task_query" where
  "pageQuery s key =
     (let label = statusKeyToStatusLabel key;
          applies = (falsy (statusFilter s) \<or> statusFilter s = Some label)
      in \<lparr>task_status = label,
          category_filter = (if applies then categoryFilter s else None),
          subcategory_filter = (if applies then subcategoryFilter s else None),
          date_from = (if applies then range_from (dateRange s) else None),
          date_to = (if applies then range_to (dateRange s) else None),
          search_query = (if applies then searchQuery s else None),
          country_filter = (if applies \<and> selectedCountries s \<noteq> [] then Some (selectedCountries s) else None),
          hourly_budget_type =
            (if applies then
               (case hourlyBudgetType s of None \<Rightarrow> None
                | Some h \<Rightarrow> if h = [] then None else if h = ''null'' then Some ''null''
                            else Some (toUpperCase h))
             else None),
          price_from = (if applies then range_from (priceRange s) else None),
          price_to = (if applies then range_to (priceRange s) else None)\<rparr>)"

definition countQueryFor :: "State \<Rightarrow> StatusKey \<Rightarrow> task_query" where
  "countQueryFor s key =
     (let label = statusKeyToStatusLabel key;
          applies = (falsy (statusFilter s) \<or> statusFilter s = Some label)
      in countQuery label
           (if applies then categoryFilter s else None)
           (if applies then subcategoryFilter s else None)
           (if applies then dateRange s else \<lparr>range_from = None, range_to = None\<rparr>)
           (if applies then searchQuery s else None)
           (if applies then selectedCountries s else [])
           (if applies then hourlyBudgetType s else None)
           (if applies then priceRange s else \<lparr>range_from = None, range_to = None\<rparr>))"

definition effectiveLimit :: "State \<Rightarrow> nat" where
  "effectiveLimit s = (case limit s of None \<Rightarrow> PAGE_SIZE | Some l \<Rightarrow> l)"

text \<open>
  The statuses a call of \<^verbatim>\<open>loadMoreTasks\<close> works on, the dispatches of its per-status
  callbacks without reset, and the fields of the store that no page load writes.
\<close>

definition statusesOf :: "StatusKey option \<Rightarrow> StatusKey list" where
  "statusesOf specificStatus = (case specificStatus of Some k \<Rightarrow> [k] | None \<Rightarrow> statusKeyArray)"

definition pageActions :: "backend \<Rightarrow> State \<Rightarrow> StatusKey list \<Rightarrow> Action list" where
  "pageActions be s ks =
     concat (map (\<lambda>key. appendPage (effectiveLimit s) s key (fst (fetchPage be False s key))) ks)"

definition sameSettings :: "State \<Rightarrow> State \<Rightarrow> bool" where
  "sameSettings s s' =
     (statusFilter s' = statusFilter s \<and> categoryFilter s' = categoryFilter s
      \<and> subcategoryFilter s' = subcategoryFilter s \<and> dateRange s' = dateRange s
      \<and> limit s' = limit s \<and> searchQuery s' = searchQuery s
      \<and> selectedCountries s' = selectedCountries s \<and> hourlyBudgetType s' = hourlyBudgetType s
      \<and> priceRange s' = priceRange s \<and> countryOptions s' = countryOptions s)"

subsection \<open>Notions the properties are stated with\<close>

text \<open>The filter actions that set a field to a value other than its current one.\<close>

fun changesFilter :: "State \<Rightarrow> Action \<Rightarrow> bool" where
  "changesFilter s (SET_STATUS_FILTER v) = (v \<noteq> statusFilter s)"
| "changesFilter s (SET_CATEGORY_FILTER v) = (v \<noteq> categoryFilter s)"
| "changesFilter s (SET_SUBCATEGORY_FILTER v) = (v \<noteq> subcategoryFilter s)"
| "changesFilter s (SET_DATE_RANGE v) = (v \<noteq> dateRange s)"
| "changesFilter s (SET_LIMIT v) = (v \<noteq> limit s)"
| "changesFilter s (SET_SEARCH_QUERY v) = (v \<noteq> searchQuery s)"
| "changesFilter s (SET_SELECTED_COUNTRIES v) = (v \<noteq> selectedCountries s)"
| "changesFilter s (SET_HOURLY_BUDGET_TYPE v) = (v \<noteq> hourlyBudgetType s)"
| "changesFilter s (SET_PRICE_RANGE v) = (v \<noteq> priceRange s)"
| "changesFilter s a = False"

text \<open>
  A run of calls of \<^verbatim>\<open>loadMoreTasks\<close> without reset, each completed before the next
  starts and each answered by the backend as it is at that time; and repeated calls of
  \<^verbatim>\<open>loadMoreTasks()\<close> of the earlier variant.
\<close>

fun loadSequence :: "State \<Rightarrow> (backend \<times> StatusKey option) list \<Rightarrow> State" where
  "loadSequence s [] = s"
| "loadSequence s ((be, specificStatus) # rest) =
     loadSequence (run s (loadMoreTasks be False specificStatus s)) rest"

primrec legacyLoads :: "backend \<Rightarrow> nat \<Rightarrow> State \<Rightarrow> State" where
  "legacyLoads be 0 s = s"
| "legacyLoads be (Suc n) s =
     (let s' = legacyLoads be n s in run s' (loadMoreTasks_legacy be False None s'))"

text \<open>
  The comment an element was built for, and every element of a rendering at any depth.
\<close>

fun commentOf :: "element \<Rightarrow> Comment" where
  "commentOf (Element c nested) = c"

fun descendants :: "element \<Rightarrow> element list" where
  "descendants (Element c nested) = Element c nested # concat (map descendants nested)"

definition allElements :: "element list \<Rightarrow> element list" where
  "allElements forest = concat (map descendants forest)"

text \<open>
  A chain of comments, each the reply to the next one, ending in a top-level comment:
  the comments whose elements enclose a nested call of \<^verbatim>\<open>renderComments\<close>, innermost
  first.
\<close>

fun threadPath :: "Comment list \<Rightarrow> bool" where
  "threadPath [] = True"
| "threadPath [c] = (parent_id c = None)"
| "threadPath (c # p # rest) = (parent_id c = Some (comment_id p) \<and> threadPath (p # rest))"

subsection \<open>A backend that holds rows\<close>

text \<open>
  Modelled from the spec: the remote procedures \<^verbatim>\<open>get_task_by_status\<close>
  (\<^verbatim>\<open>get_tasks_by_status\<close>) and \<^verbatim>\<open>get_task_count_by_status\<close> and the table queries run
  on the hosted backend and are not in the repository.
  A backend holding the rows \<open>rows\<close>, newest first, answers a page request with the
  \<open>limit\<close> rows from \<open>offset\<close> on of the rows matching the request and a count request
  with their number; which rows match a request is the parameter \<open>matches\<close>.
\<close>

definition dbBackend :: "(task_query \<Rightarrow> Task \<Rightarrow> bool) \<Rightarrow> Task list \<Rightarrow> backend" where
  "dbBackend matches rows =
     \<lparr>get_task_by_status =
        (\<lambda>q l off. \<lparr>data = Some (take l (drop off (filter (matches q) rows))), error = None\<rparr>),
      get_task_count_by_status =
        (\<lambda>q. \<lparr>data = Some (length (filter (matches q) rows)), error = None\<rparr>),
      update_task_status = (\<lambda>i l. \<lparr>data = None, error = None\<rparr>),
      get_tasks_by_status =
        (\<lambda>q l off. \<lparr>data = Some (take l (drop off (filter (matches q) rows))), error = None\<rparr>),
      select_count = (\<lambda>q. Some (length (filter (matches q) rows)))\<rparr>"

subsection \<open>The scenario of the filter set\<close>

text \<open>
  The request for the first status under the filter set \<^verbatim>\<open>{category: "Writing", limit: 10}\<close>,
  and the store after that filter set was entered in the initial store.
\<close>

definition writingToDoQuery :: task_query where
  "writingToDoQuery =
     \<lparr>task_status = ''To Do'', category_filter = Some ''Writing'', subcategory_filter = None,
      date_from = None, date_to = None, search_query = None, country_filter = None,
      hourly_budget_type = None, price_from = None, price_to = None\<rparr>"

definition writingLimit10 :: State where
  "writingLimit10 =
     reducer (reducer initialState (SET_CATEGORY_FILTER (Some ''Writing''))) (SET_LIMIT (Some 10))"

subsection \<open>Example data\<close>

text \<open>Two tasks, a backend without rows, a backend that fails, and a small board.\<close>

definition task1 :: Task where
  "task1 = \<lparr>task_id = ''1'', title = ''Landing page copy'', description = ''Write the copy'',
            status = ''To Do'', category = Some ''Writing'', subcategory = None,
            country = Some ''IN'', created_at = ''2025-06-01''\<rparr>"

definition task2 :: Task where
  "task2 = \<lparr>task_id = ''2'', title = ''Logo'', description = ''Draw the logo'',
            status = ''Done'', category = Some ''Design'', subcategory = None,
            country = None, created_at = ''2025-05-01''\<rparr>"

definition emptyBackend :: backend where
  "emptyBackend =
     \<lparr>get_task_by_status = (\<lambda>q l off. \<lparr>data = Some [], error = None\<rparr>),
      get_task_count_by_status = (\<lambda>q. \<lparr>data = Some 0, error = None\<rparr>),
      update_task_status = (\<lambda>i l. \<lparr>data = None, error = None\<rparr>),
      get_tasks_by_status = (\<lambda>q l off. \<lparr>data = Some [], error = None\<rparr>),
      select_count = (\<lambda>q. Some 0)\<rparr>"

definition failingBackend :: backend where
  "failingBackend =
     \<lparr>get_task_by_status = (\<lambda>q l off. \<lparr>data = None, error = Some ''timeout''\<rparr>),
      get_task_count_by_status = (\<lambda>q. \<lparr>data = None, error = Some ''timeout''\<rparr>),
      update_task_status = (\<lambda>i l. \<lparr>data = None, error = Some ''permission denied''\<rparr>),
      get_tasks_by_status = (\<lambda>q l off. \<lparr>data = None, error = Some ''timeout''\<rparr>),
      select_count = (\<lambda>q. None)\<rparr>"

definition boardState :: State where
  "boardState = initialState\<lparr>tasksByStatus := \<lparr>to_do = [task1], in_progress = [], done' = [task2]\<rparr>\<rparr>"

text \<open>
  Rows by number (\<^verbatim>\<open>Number.prototype.toString\<close> gives the id), a matching rule on status,
  category and subcategory, and a backend holding 25 To Do rows of category Writing.
\<close>

fun toString :: "nat \<Rightarrow> string" where
  "toString n =
     (if n < 10 then [char_of (48 + n)] else toString (n div 10) @ [char_of (48 + n mod 10)])"

definition writingRow :: "nat \<Rightarrow> Task" where
  "writingRow n =
     \<lparr>task_id = toString n, title = ''Article'', description = ''Write an article'',
      status = ''To Do'', category = Some ''Writing'', subcategory = None,
      country = None, created_at = ''2025-06-01''\<rparr>"

definition inProgressRow :: "nat \<Rightarrow> Task" where
  "inProgressRow n =
     \<lparr>task_id = toString n, title = ''Translation'', description = ''Translate the page'',
      status = ''In Progress'', category = Some ''Writing'', subcategory = None,
      country = None, created_at = ''2025-05-20''\<rparr>"

definition matchesQuery :: "task_query \<Rightarrow> Task \<Rightarrow> bool" where
  "matchesQuery q t =
     (status t = task_status q
      \<and> (category_filter q = None \<or> category t = category_filter q)
      \<and> (subcategory_filter q = None \<or> subcategory t = subcategory_filter q))"

definition exampleRows :: "Task list" where
  "exampleRows = task2 # map writingRow (rev [1..<26])"

definition exampleBackend :: backend where
  "exampleBackend = dbBackend matchesQuery exampleRows"

text \<open>
  A board loaded when the backend held one To Do row and twelve In Progress rows, and the
  rows of the backend after twenty more To Do rows arrived.
\<close>

definition smallBoardRows :: "Task list" where
  "smallBoardRows = task1 # map inProgressRow (rev [101..<113])"

definition grownBoardRows :: "Task list" where
  "grownBoardRows = map writingRow (rev [2..<22]) @ smallBoardRows"

definition smallBoard :: State where
  "smallBoard =
     run initialState
       (andThen (loadMoreTasks (dbBackend matchesQuery smallBoardRows) True None initialState)
          (fetchStatusWiseCounts (dbBackend matchesQuery smallBoardRows) initialState))"

text \<open>
  A comment thread, newest first as it is fetched, and the same thread after its top
  comment is gone.
\<close>

definition topComment :: Comment where
  "topComment =
     \<lparr>comment_id = ''c1'', content = ''Is the brief final?'', created_at_c = ''2025-06-01T10:00'',
      updated_at = None, user_id = Some ''u1'', user_email = ''ana@example.org'', parent_id = None\<rparr>"

definition replyComment :: Comment where
  "replyComment =
     \<lparr>comment_id = ''c2'', content = ''Yes, since Monday'', created_at_c = ''2025-06-01T11:00'',
      updated_at = None, user_id = Some ''u2'', user_email = ''ben@example.org'',
      parent_id = Some ''c1''\<rparr>"

definition secondReply :: Comment where
  "secondReply =
     \<lparr>comment_id = ''c3'', content = ''Thanks'', created_at_c = ''2025-06-01T12:00'',
      updated_at = None, user_id = Some ''u1'', user_email = ''ana@example.org'',
      parent_id = Some ''c2''\<rparr>"

definition fullThread :: "Comment list" where
  "fullThread = [secondReply, replyComment, topComment]"

definition orphanedThread :: "Comment list" where
  "orphanedThread = [secondReply, replyComment]"

section \<open>Properties of the store\<close>

subsection \<open>Basic facts\<close>

lemma getKey_setKey: "getKey (setKey r k v) k' = (if k' = k then v else getKey r k')"
  by (cases k; cases k') simp_all

lemma run_andThen: "run s (andThen a b) = run (run s a) b"
  by (simp add: run_def andThen_def)

lemma run_nothing: "run s nothing = s"
  by (simp add: run_def nothing_def)

lemma getTaskCountByStatus_calls:
  "fst (snd (getTaskCountByStatus be l a b c d e f g)) =
     [Get_task_count_by_status
        \<lparr>task_status = l, category_filter = a, subcategory_filter = b,
         date_from = range_from c, date_to = range_to c, search_query = d,
         country_filter = (if length e > 0 then Some e else None),
         hourly_budget_type = (if f = Some ''null'' then Some ''null'' else map_option toUpperCase f),
         price_from = range_from g, price_to = range_to g\<rparr>]"
  by (simp add: getTaskCountByStatus_def Let_def split: option.splits)

lemma countForKey_calls: "\<exists>q. fst (snd (countForKey be s key)) = [Get_task_count_by_status q]"
  unfolding countForKey_def Let_def getTaskCountByStatus_calls by blast

lemma fetchStatusWiseCounts_dispatched:
  "\<exists>counts. dispatched (fetchStatusWiseCounts be s) = [SET_TOTAL_COUNT_BY_STATUS counts]"
  by (simp add: fetchStatusWiseCounts_def Let_def)

lemma fetchStatusWiseCounts_calls:
  "\<exists>q1 q2 q3. calls (fetchStatusWiseCounts be s) =
     [Get_task_count_by_status q1, Get_task_count_by_status q2, Get_task_count_by_status q3]"
proof -
  obtain q1 where q1: "fst (snd (countForKey be s To_do)) = [Get_task_count_by_status q1]"
    using countForKey_calls by blast
  obtain q2 where q2: "fst (snd (countForKey be s In_progress)) = [Get_task_count_by_status q2]"
    using countForKey_calls by blast
  obtain q3 where q3: "fst (snd (countForKey be s Done)) = [Get_task_count_by_status q3]"
    using countForKey_calls by blast
  show ?thesis
    by (simp add: fetchStatusWiseCounts_def Let_def statusKeyArray_def q1 q2 q3)
qed

lemma fetchStatusWiseCounts_no_update:
  "filter isStatusUpdate (calls (fetchStatusWiseCounts be s)) = []"
proof -
  obtain q1 q2 q3 where "calls (fetchStatusWiseCounts be s) =
     [Get_task_count_by_status q1, Get_task_count_by_status q2, Get_task_count_by_status q3]"
    using fetchStatusWiseCounts_calls by blast
  then show ?thesis by simp
qed

lemma tasks_run_counts: "tasksByStatus (run s (fetchStatusWiseCounts be s')) = tasksByStatus s"
  by (simp add: run_def fetchStatusWiseCounts_def Let_def)

lemma moveTask_found:
  assumes "find (\<lambda>t. task_id t = taskId) (getKey (tasksByStatus s) sourceCol) = Some task"
  shows "moveTask be taskId sourceCol destCol destIndex s =
     andThen
       \<lparr>dispatched = [SET_TASKS_BY_STATUS (relocated (tasksByStatus s) taskId sourceCol destCol destIndex task)],
        calls = [Update_task_status (task_id task) (statusKeyToStatusLabel destCol)],
        logged = (case error (update_task_status be (task_id task) (statusKeyToStatusLabel destCol)) of
                    Some e \<Rightarrow> [''Failed to update task status:''] | None \<Rightarrow> [])\<rparr>
       (fetchStatusWiseCounts be
          (s\<lparr>tasksByStatus := relocated (tasksByStatus s) taskId sourceCol destCol destIndex task\<rparr>))"
  using assms by (simp add: moveTask_def Let_def relocated_def run_def)

lemma moveTask_absent:
  assumes "\<forall>t \<in> set (getKey (tasksByStatus s) sourceCol). task_id t \<noteq> taskId"
  shows "moveTask be taskId sourceCol destCol destIndex s = nothing"
proof -
  have "find (\<lambda>t. task_id t = taskId) (getKey (tasksByStatus s) sourceCol) = None"
    using assms by (simp add: find_None_iff)
  then show ?thesis by (simp add: moveTask_def)
qed

subsection \<open>Moving a task\<close>

lemma moveTask_legacy_found:
  assumes "find (\<lambda>t. task_id t = taskId) (getKey (tasksByStatus s) sourceCol) = Some task"
  shows "moveTask_legacy be taskId sourceCol destCol destIndex s =
     andThen
       \<lparr>dispatched = [SET_TASKS_BY_STATUS (relocated (tasksByStatus s) taskId sourceCol destCol destIndex task)],
        calls = [Update_task_status (task_id task) (statusKeyToStatusLabel destCol)],
        logged = (case error (update_task_status be (task_id task) (statusKeyToStatusLabel destCol)) of
                    Some e \<Rightarrow> [''Failed to update task status:''] | None \<Rightarrow> [])\<rparr>
       (fetchStatusWiseCounts_legacy be s)"
  using assms by (simp add: moveTask_legacy_def Let_def relocated_def)

lemma moveTask_legacy_absent:
  assumes "\<forall>t \<in> set (getKey (tasksByStatus s) sourceCol). task_id t \<noteq> taskId"
  shows "moveTask_legacy be taskId sourceCol destCol destIndex s = nothing"
proof -
  have "find (\<lambda>t. task_id t = taskId) (getKey (tasksByStatus s) sourceCol) = None"
    using assms by (simp add: find_None_iff)
  then show ?thesis by (simp add: moveTask_legacy_def)
qed

lemma moveTask_legacy_same:
  assumes "find (\<lambda>t. task_id t = taskId) (getKey (tasksByStatus s) sourceCol) = Some task"
  shows "tasksByStatus (run s (moveTask_legacy be taskId sourceCol destCol destIndex s))
           = tasksByStatus (run s (moveTask be taskId sourceCol destCol destIndex s))
         \<and> filter isStatusUpdate (calls (moveTask_legacy be taskId sourceCol destCol destIndex s))
           = filter isStatusUpdate (calls (moveTask be taskId sourceCol destCol destIndex s))"
  unfolding moveTask_found [OF assms] moveTask_legacy_found [OF assms] run_andThen tasks_run_counts
  by (simp add: andThen_def fetchStatusWiseCounts_no_update run_def fetchStatusWiseCounts_legacy_def
      Let_def statusKeyArray_def)

text \<open>
  C1, as amended. When \<^verbatim>\<open>find\<close> returns a task for \<open>taskId\<close> in the source list (the
  first one with that id, and there is one exactly when the id occurs there),
  \<^verbatim>\<open>moveTask\<close> leaves as destination list the old destination list without the entries
  of that id, with the task, relabelled with the destination status, spliced in at
  position \<open>k\<close>: \<open>k\<close> is \<open>destIndex\<close> when \<open>0 \<le> destIndex \<le>\<close> the length of that list,
  the end of the list when \<open>destIndex\<close> is larger, and counted back from the end of the
  list (stopping at its start) when \<open>destIndex\<close> is negative. When source and destination
  differ, the source list loses every entry of that id; the third list is untouched.
  Exactly one status update is issued, with the task id and the destination label.
  \<^verbatim>\<open>moveTask\<close> of the earlier variant leaves the same lists and issues the same update.
\<close>

theorem moveTask_relocates:
  assumes "find (\<lambda>t. task_id t = taskId) (getKey (tasksByStatus s) sourceCol) = Some task"
  shows "let out = moveTask be taskId sourceCol destCol destIndex s;
             after = tasksByStatus (run s out);
             rest = filter (\<lambda>t. task_id t \<noteq> taskId) (getKey (tasksByStatus s) destCol);
             moved = task\<lparr>status := statusKeyToStatusLabel destCol\<rparr>;
             k = spliceStart (length rest) destIndex
         in getKey after destCol = take k rest @ moved # drop k rest
            \<and> (0 \<le> destIndex \<and> destIndex \<le> int (length rest) \<longrightarrow> k = nat destIndex)
            \<and> (length rest < nat destIndex \<longrightarrow> k = length rest)
            \<and> (destIndex < 0 \<longrightarrow> k = nat (int (length rest) + destIndex))
            \<and> (sourceCol \<noteq> destCol \<longrightarrow>
                 getKey after sourceCol
                   = filter (\<lambda>t. task_id t \<noteq> taskId) (getKey (tasksByStatus s) sourceCol))
            \<and> (\<forall>key. key \<noteq> sourceCol \<and> key \<noteq> destCol \<longrightarrow>
                 getKey after key = getKey (tasksByStatus s) key)
            \<and> filter isStatusUpdate (calls out)
                 = [Update_task_status taskId (statusKeyToStatusLabel destCol)]
            \<and> tasksByStatus (run s (moveTask_legacy be taskId sourceCol destCol destIndex s)) = after
            \<and> filter isStatusUpdate (calls (moveTask_legacy be taskId sourceCol destCol destIndex s))
                 = [Update_task_status taskId (statusKeyToStatusLabel destCol)]"
proof -
  have id: "task_id task = taskId"
    using assms by (auto simp: find_Some_iff)
  have k: "0 \<le> destIndex \<and> destIndex \<le> int n \<longrightarrow> spliceStart n destIndex = nat destIndex" for n
    by (simp add: spliceStart_def min_def)
  have k': "n < nat destIndex \<longrightarrow> spliceStart n destIndex = n" for n
    by (auto simp: spliceStart_def min_def)
  have k'': "destIndex < 0 \<longrightarrow> spliceStart n destIndex = nat (int n + destIndex)" for n
    by (simp add: spliceStart_def max_def)
  note same = moveTask_legacy_same [OF assms, of be destCol destIndex]
  show ?thesis
    unfolding same [THEN conjunct1] same [THEN conjunct2] moveTask_found [OF assms] Let_def run_andThen tasks_run_counts
    by (simp add: andThen_def fetchStatusWiseCounts_no_update id k k' k'' run_def relocated_def
        getKey_setKey spliceInsert_def)
qed

theorem moveTask_relocates_witness:
  "find (\<lambda>t. task_id t = ''1'') (getKey (tasksByStatus boardState) To_do) = Some task1
   \<and> getKey (tasksByStatus (run boardState (moveTask emptyBackend ''1'' To_do Done 1 boardState))) Done
       = [task2, task1\<lparr>status := ''Done''\<rparr>]
   \<and> getKey (tasksByStatus (run boardState (moveTask emptyBackend ''1'' To_do Done 1 boardState))) To_do
       = []
   \<and> filter isStatusUpdate (calls (moveTask emptyBackend ''1'' To_do Done 1 boardState))
       = [Update_task_status ''1'' ''Done'']"
proof -
  have h: "find (\<lambda>t. task_id t = ''1'') (getKey (tasksByStatus boardState) To_do) = Some task1"
    by (simp add: boardState_def task1_def)
  show ?thesis
    using h moveTask_relocates [OF h, of emptyBackend Done 1]
    by (simp add: Let_def boardState_def task1_def task2_def spliceStart_def statusKeyToStatusLabel_def)
qed

text \<open>
  C1 as stated fails when \<open>destIndex\<close> exceeds the length of the destination list: moving
  task 1 to index 5 of a one-element list puts it at index 1, and index 5 does not exist.
\<close>

theorem moveTask_index_counterexample:
  "find (\<lambda>t. task_id t = ''1'') (getKey (tasksByStatus boardState) To_do) = Some task1
   \<and> getKey (tasksByStatus (run boardState (moveTask emptyBackend ''1'' To_do Done 5 boardState))) Done
       = [task2, task1\<lparr>status := ''Done''\<rparr>]
   \<and> \<not> 5 < length (getKey (tasksByStatus
           (run boardState (moveTask emptyBackend ''1'' To_do Done 5 boardState))) Done)"
  by (simp add: moveTask_def boardState_def task1_def task2_def Let_def run_def andThen_def
      fetchStatusWiseCounts_def spliceInsert_def spliceStart_def statusKeyToStatusLabel_def)

text \<open>
  C10: when no task of the source list has id \<open>taskId\<close>, \<^verbatim>\<open>moveTask\<close> dispatches nothing,
  so the store is unchanged, and issues no remote call, neither the status update nor the
  count refresh; so does \<^verbatim>\<open>moveTask\<close> of the earlier variant.
\<close>

theorem moveTask_absent_noop:
  assumes "\<forall>t \<in> set (getKey (tasksByStatus s) sourceCol). task_id t \<noteq> taskId"
  shows "dispatched (moveTask be taskId sourceCol destCol destIndex s) = []
         \<and> calls (moveTask be taskId sourceCol destCol destIndex s) = []
         \<and> logged (moveTask be taskId sourceCol destCol destIndex s) = []
         \<and> run s (moveTask be taskId sourceCol destCol destIndex s) = s
         \<and> dispatched (moveTask_legacy be taskId sourceCol destCol destIndex s) = []
         \<and> calls (moveTask_legacy be taskId sourceCol destCol destIndex s) = []"
  using moveTask_absent [OF assms] moveTask_legacy_absent [OF assms]
  by (simp add: nothing_def run_def)

theorem moveTask_absent_noop_witness:
  "''1'' \<notin> task_id ` set (getKey (tasksByStatus boardState) Done)
   \<and> dispatched (moveTask failingBackend ''1'' Done To_do 0 boardState) = []
   \<and> calls (moveTask failingBackend ''1'' Done To_do 0 boardState) = []
   \<and> run boardState (moveTask failingBackend ''1'' Done To_do 0 boardState) = boardState"
proof -
  have h: "\<forall>t \<in> set (getKey (tasksByStatus boardState) Done). task_id t \<noteq> ''1''"
    by (simp add: boardState_def task2_def)
  show ?thesis
    using h moveTask_absent_noop [OF h, of failingBackend To_do 0] by auto
qed

text \<open>
  C7: when the status update returns an error, the store still holds the relocated
  lists: the only dispatches are the optimistic \<^verbatim>\<open>SET_TASKS_BY_STATUS\<close> and the totals
  of the count refresh, nothing restores the lists from before the move (which differ
  from the relocated ones whenever source and destination differ), and the failure is
  written to the log.
\<close>

theorem moveTask_error_keeps_move:
  assumes "find (\<lambda>t. task_id t = taskId) (getKey (tasksByStatus s) sourceCol) = Some task"
    and "error (update_task_status be (task_id task) (statusKeyToStatusLabel destCol)) = Some e"
  shows "tasksByStatus (run s (moveTask be taskId sourceCol destCol destIndex s))
           = setKey (setKey (tasksByStatus s) sourceCol
                       (filter (\<lambda>t. task_id t \<noteq> taskId) (getKey (tasksByStatus s) sourceCol)))
               destCol
               (spliceInsert (filter (\<lambda>t. task_id t \<noteq> taskId) (getKey (tasksByStatus s) destCol))
                  destIndex (task\<lparr>status := statusKeyToStatusLabel destCol\<rparr>))
         \<and> (sourceCol \<noteq> destCol \<longrightarrow>
               tasksByStatus (run s (moveTask be taskId sourceCol destCol destIndex s)) \<noteq> tasksByStatus s)
         \<and> (\<exists>counts. dispatched (moveTask be taskId sourceCol destCol destIndex s)
               = [SET_TASKS_BY_STATUS (tasksByStatus (run s (moveTask be taskId sourceCol destCol destIndex s))),
                  SET_TOTAL_COUNT_BY_STATUS counts])
         \<and> ''Failed to update task status:'' \<in> set (logged (moveTask be taskId sourceCol destCol destIndex s))"
proof -
  let ?new = "relocated (tasksByStatus s) taskId sourceCol destCol destIndex task"
  have t: "tasksByStatus (run s (moveTask be taskId sourceCol destCol destIndex s)) = ?new"
    unfolding moveTask_found [OF assms(1)] run_andThen tasks_run_counts
    by (simp add: run_def)
  obtain counts where d: "dispatched (fetchStatusWiseCounts be (s\<lparr>tasksByStatus := ?new\<rparr>))
      = [SET_TOTAL_COUNT_BY_STATUS counts]"
    using fetchStatusWiseCounts_dispatched by blast
  have mem: "task \<in> set (getKey (tasksByStatus s) sourceCol)" and id: "task_id task = taskId"
    using assms(1) by (auto simp: find_Some_iff)
  have neq: "?new \<noteq> tasksByStatus s" if "sourceCol \<noteq> destCol"
  proof
    assume "?new = tasksByStatus s"
    then have "getKey ?new sourceCol = getKey (tasksByStatus s) sourceCol" by simp
    then have "filter (\<lambda>t. task_id t \<noteq> taskId) (getKey (tasksByStatus s) sourceCol)
        = getKey (tasksByStatus s) sourceCol"
      using that by (simp add: relocated_def getKey_setKey)
    then have "task \<in> set (filter (\<lambda>t. task_id t \<noteq> taskId) (getKey (tasksByStatus s) sourceCol))"
      using mem by simp
    then show False using id by simp
  qed
  show ?thesis
    unfolding t
    using neq
    by (simp add: moveTask_found [OF assms(1)] andThen_def d assms(2)) (simp add: relocated_def)
qed

theorem moveTask_error_keeps_move_witness:
  "find (\<lambda>t. task_id t = ''1'') (getKey (tasksByStatus boardState) To_do) = Some task1
   \<and> error (update_task_status failingBackend (task_id task1) (statusKeyToStatusLabel Done))
       = Some ''permission denied''
   \<and> tasksByStatus (run boardState (moveTask failingBackend ''1'' To_do Done 0 boardState))
       = \<lparr>to_do = [], in_progress = [], done' = [task1\<lparr>status := ''Done''\<rparr>, task2]\<rparr>"
proof -
  have h: "find (\<lambda>t. task_id t = ''1'') (getKey (tasksByStatus boardState) To_do) = Some task1"
    by (simp add: boardState_def task1_def)
  have e: "error (update_task_status failingBackend (task_id task1) (statusKeyToStatusLabel Done))
       = Some ''permission denied''"
    by (simp add: failingBackend_def)
  show ?thesis
    using h e moveTask_error_keeps_move [OF h e, of 0]
    by (simp add: boardState_def task1_def task2_def spliceInsert_def spliceStart_def
        statusKeyToStatusLabel_def initialState_def)
qed

subsection \<open>Fetching\<close>

lemma fetchedPages_append: "fetchedPages (xs @ ys) = fetchedPages xs @ fetchedPages ys"
  by (induction xs rule: fetchedPages.induct) simp_all

lemma fetchTasksByStatus_eq:
  "fetchTasksByStatus be status' filters =
     (case error (get_task_by_status be (fetchQuery status' filters)
                    (case limitF filters of None \<Rightarrow> PAGE_SIZE | Some n \<Rightarrow> n)
                    (case offsetF filters of None \<Rightarrow> 0 | Some n \<Rightarrow> n)) of
        Some e \<Rightarrow>
          (Some [],
           [Get_task_by_status (fetchQuery status' filters)
              (case limitF filters of None \<Rightarrow> PAGE_SIZE | Some n \<Rightarrow> n)
              (case offsetF filters of None \<Rightarrow> 0 | Some n \<Rightarrow> n)],
           [''Error fetching tasks:''])
      | None \<Rightarrow>
          (data (get_task_by_status be (fetchQuery status' filters)
                   (case limitF filters of None \<Rightarrow> PAGE_SIZE | Some n \<Rightarrow> n)
                   (case offsetF filters of None \<Rightarrow> 0 | Some n \<Rightarrow> n)),
           [Get_task_by_status (fetchQuery status' filters)
              (case limitF filters of None \<Rightarrow> PAGE_SIZE | Some n \<Rightarrow> n)
              (case offsetF filters of None \<Rightarrow> 0 | Some n \<Rightarrow> n)],
           []))"
  unfolding fetchTasksByStatus_def fetchQuery_def Let_def ..


lemma fetchPage_eq:
  "fetchPage be reset s key =
     (case error (get_task_by_status be (pageQuery s key) (effectiveLimit s)
                    ((if reset then 0 else getKey (pageByStatus s) key) * effectiveLimit s)) of
        Some e \<Rightarrow>
          (Some [],
           [Get_task_by_status (pageQuery s key) (effectiveLimit s)
              ((if reset then 0 else getKey (pageByStatus s) key) * effectiveLimit s)],
           [''Error fetching tasks:''])
      | None \<Rightarrow>
          (data (get_task_by_status be (pageQuery s key) (effectiveLimit s)
                   ((if reset then 0 else getKey (pageByStatus s) key) * effectiveLimit s)),
           [Get_task_by_status (pageQuery s key) (effectiveLimit s)
              ((if reset then 0 else getKey (pageByStatus s) key) * effectiveLimit s)],
           []))"
proof -
  let ?apply = "falsy (statusFilter s) \<or> statusFilter s = Some (statusKeyToStatusLabel key)"
  let ?filters = "\<lparr>categoryFilterF = (if ?apply then categoryFilter s else None),
            subcategoryFilterF = (if ?apply then subcategoryFilter s else None),
            dateRangeF =
              Some (if ?apply then dateRange s
                    else \<lparr>range_from = None, range_to = None\<rparr>),
            searchQueryF = (if ?apply then searchQuery s else None),
            limitF = Some (case limit s of None \<Rightarrow> PAGE_SIZE | Some l \<Rightarrow> l),
            offsetF = Some ((if reset then 0 else getKey (pageByStatus s) key)
                              * (case limit s of None \<Rightarrow> PAGE_SIZE | Some l \<Rightarrow> l)),
            selectedCountriesF = Some (if ?apply then selectedCountries s else []),
            hourlyBudgetTypeF = (if ?apply then hourlyBudgetType s else None),
            priceFromF = (if ?apply then range_from (priceRange s) else None),
            priceToF = (if ?apply then range_to (priceRange s) else None)\<rparr>"
  have q: "fetchQuery (statusKeyToStatusLabel key) ?filters = pageQuery s key"
  proof (cases ?apply)
    case True
    then show ?thesis
      unfolding fetchQuery_def pageQuery_def Let_def
      by (simp only: if_True fetchFilters.simps option.case) simp
  next
    case False
    then show ?thesis
      unfolding fetchQuery_def pageQuery_def Let_def
      by (simp only: if_False fetchFilters.simps option.case) simp
  qed
  have l: "(case limitF ?filters of None \<Rightarrow> PAGE_SIZE | Some n \<Rightarrow> n) = effectiveLimit s"
    by (simp add: effectiveLimit_def)
  have off: "(case offsetF ?filters of None \<Rightarrow> 0 | Some n \<Rightarrow> n)
      = (if reset then 0 else getKey (pageByStatus s) key) * effectiveLimit s"
    by (simp add: effectiveLimit_def)
  have "fetchPage be reset s key = fetchTasksByStatus be (statusKeyToStatusLabel key) ?filters"
    unfolding fetchPage_def Let_def ..
  then show ?thesis
    unfolding fetchTasksByStatus_eq q l off .
qed

lemma getTaskCountByStatus_eq:
  "getTaskCountByStatus be st cat sub dr sq countries hbt pr =
     (case error (get_task_count_by_status be (countQuery st cat sub dr sq countries hbt pr)) of
        Some e \<Rightarrow>
          (0, [Get_task_count_by_status (countQuery st cat sub dr sq countries hbt pr)],
           [''Count error for status '' @ st @ '':''])
      | None \<Rightarrow>
          (case data (get_task_count_by_status be (countQuery st cat sub dr sq countries hbt pr)) of
             None \<Rightarrow> 0 | Some n \<Rightarrow> n,
           [Get_task_count_by_status (countQuery st cat sub dr sq countries hbt pr)], []))"
  unfolding getTaskCountByStatus_def countQuery_def Let_def ..

lemma fetchTasksByStatus_call:
  "fst (snd (fetchTasksByStatus be status' filters)) =
     [Get_task_by_status (fetchQuery status' filters)
        (case limitF filters of None \<Rightarrow> PAGE_SIZE | Some n \<Rightarrow> n)
        (case offsetF filters of None \<Rightarrow> 0 | Some n \<Rightarrow> n)]"
  unfolding fetchTasksByStatus_eq by (simp split: option.split)

lemma getTaskCountByStatus_call:
  "fst (snd (getTaskCountByStatus be st cat sub dr sq countries hbt pr)) =
     [Get_task_count_by_status (countQuery st cat sub dr sq countries hbt pr)]"
  unfolding getTaskCountByStatus_eq by (simp split: option.split)

text \<open>
  C8: when the response to the call it issues carries an error, \<^verbatim>\<open>fetchTasksByStatus\<close>
  returns the empty list and \<^verbatim>\<open>getTaskCountByStatus\<close> returns 0. These are the values
  they return for a successful response with no rows or a zero count, and the returned
  value has no other component: the caller cannot tell the two apart.
\<close>

theorem fetch_errors_read_as_empty:
  "(fst (snd (fetchTasksByStatus be status' filters)) = [Get_task_by_status q l off]
      \<and> error (get_task_by_status be q l off) = Some e
    \<longrightarrow> fst (fetchTasksByStatus be status' filters) = Some []
        \<and> fst (fetchTasksByStatus be status' filters)
            = fst (fetchTasksByStatus
                     (be\<lparr>get_task_by_status := \<lambda>q l off. \<lparr>data = Some [], error = None\<rparr>\<rparr>)
                     status' filters))
   \<and> (fst (snd (getTaskCountByStatus be status' cat sub dr sq countries hbt pr))
         = [Get_task_count_by_status q']
      \<and> error (get_task_count_by_status be q') = Some e'
    \<longrightarrow> fst (getTaskCountByStatus be status' cat sub dr sq countries hbt pr) = 0
        \<and> fst (getTaskCountByStatus be status' cat sub dr sq countries hbt pr)
            = fst (getTaskCountByStatus
                     (be\<lparr>get_task_count_by_status := \<lambda>q. \<lparr>data = Some 0, error = None\<rparr>\<rparr>)
                     status' cat sub dr sq countries hbt pr))"
proof (intro conjI impI)
  assume a: "fst (snd (fetchTasksByStatus be status' filters)) = [Get_task_by_status q l off]
      \<and> error (get_task_by_status be q l off) = Some e"
  then have "error (get_task_by_status be (fetchQuery status' filters)
        (case limitF filters of None \<Rightarrow> PAGE_SIZE | Some n \<Rightarrow> n)
        (case offsetF filters of None \<Rightarrow> 0 | Some n \<Rightarrow> n)) = Some e"
    unfolding fetchTasksByStatus_call by simp
  then show r: "fst (fetchTasksByStatus be status' filters) = Some []"
    unfolding fetchTasksByStatus_eq by simp
  show "fst (fetchTasksByStatus be status' filters)
            = fst (fetchTasksByStatus
                     (be\<lparr>get_task_by_status := \<lambda>q l off. \<lparr>data = Some [], error = None\<rparr>\<rparr>)
                     status' filters)"
    unfolding r unfolding fetchTasksByStatus_eq by simp
next
  assume a: "fst (snd (getTaskCountByStatus be status' cat sub dr sq countries hbt pr))
         = [Get_task_count_by_status q']
      \<and> error (get_task_count_by_status be q') = Some e'"
  then have "error (get_task_count_by_status be (countQuery status' cat sub dr sq countries hbt pr))
      = Some e'"
    unfolding getTaskCountByStatus_call by simp
  then show r: "fst (getTaskCountByStatus be status' cat sub dr sq countries hbt pr) = 0"
    unfolding getTaskCountByStatus_eq by simp
  show "fst (getTaskCountByStatus be status' cat sub dr sq countries hbt pr)
            = fst (getTaskCountByStatus
                     (be\<lparr>get_task_count_by_status := \<lambda>q. \<lparr>data = Some 0, error = None\<rparr>\<rparr>)
                     status' cat sub dr sq countries hbt pr)"
    unfolding r unfolding getTaskCountByStatus_eq by simp
qed

theorem fetch_errors_read_as_empty_witness:
  "fst (snd (fetchTasksByStatus failingBackend ''To Do''
        \<lparr>categoryFilterF = Some ''Writing'', subcategoryFilterF = None, dateRangeF = None,
         searchQueryF = None, limitF = None, offsetF = None, selectedCountriesF = None,
         hourlyBudgetTypeF = Some ''fixed'', priceFromF = None, priceToF = None\<rparr>))
     = [Get_task_by_status
          \<lparr>task_status = ''To Do'', category_filter = Some ''Writing'', subcategory_filter = None,
           date_from = None, date_to = None, search_query = None, country_filter = None,
           hourly_budget_type = Some ''FIXED'', price_from = None, price_to = None\<rparr> 10 0]
   \<and> fst (fetchTasksByStatus failingBackend ''To Do''
        \<lparr>categoryFilterF = Some ''Writing'', subcategoryFilterF = None, dateRangeF = None,
         searchQueryF = None, limitF = None, offsetF = None, selectedCountriesF = None,
         hourlyBudgetTypeF = Some ''fixed'', priceFromF = None, priceToF = None\<rparr>) = Some []
   \<and> fst (getTaskCountByStatus failingBackend ''To Do'' (Some ''Writing'') None
        \<lparr>range_from = None, range_to = None\<rparr> None [] None \<lparr>range_from = None, range_to = None\<rparr>) = 0"
proof -
  let ?f = "\<lparr>categoryFilterF = Some ''Writing'', subcategoryFilterF = None, dateRangeF = None,
         searchQueryF = None, limitF = None, offsetF = None, selectedCountriesF = None,
         hourlyBudgetTypeF = Some ''fixed'', priceFromF = None, priceToF = None\<rparr>"
  let ?q = "\<lparr>task_status = ''To Do'', category_filter = Some ''Writing'', subcategory_filter = None,
           date_from = None, date_to = None, search_query = None, country_filter = None,
           hourly_budget_type = Some ''FIXED'', price_from = None, price_to = None\<rparr>"
  let ?q' = "\<lparr>task_status = ''To Do'', category_filter = Some ''Writing'', subcategory_filter = None,
           date_from = None, date_to = None, search_query = None, country_filter = None,
           hourly_budget_type = None, price_from = None, price_to = None\<rparr>"
  have u: "toUpperCase ''fixed'' = ''FIXED''"
    by code_simp
  have c: "fst (snd (fetchTasksByStatus failingBackend ''To Do'' ?f)) = [Get_task_by_status ?q 10 0]"
    unfolding fetchTasksByStatus_call
    by (simp add: fetchQuery_def PAGE_SIZE_def u)
  have e: "error (get_task_by_status failingBackend ?q 10 0) = Some ''timeout''"
    by (simp add: failingBackend_def)
  have c': "fst (snd (getTaskCountByStatus failingBackend ''To Do'' (Some ''Writing'') None
        \<lparr>range_from = None, range_to = None\<rparr> None [] None \<lparr>range_from = None, range_to = None\<rparr>))
      = [Get_task_count_by_status ?q']"
    unfolding getTaskCountByStatus_call by (simp add: countQuery_def)
  have e': "error (get_task_count_by_status failingBackend ?q') = Some ''timeout''"
    by (simp add: failingBackend_def)
  show ?thesis
    using c fetch_errors_read_as_empty [of failingBackend "''To Do''" ?f ?q 10 0 "''timeout''"
        "Some ''Writing''" None "\<lparr>range_from = None, range_to = None\<rparr>" None "[]" None
        "\<lparr>range_from = None, range_to = None\<rparr>" ?q' "''timeout''"] e c' e'
    by simp
qed

subsection \<open>Page loads in closed form\<close>

lemma sameSettings_refl: "sameSettings s s"
  by (simp add: sameSettings_def)

lemma sameSettings_trans: "sameSettings s s' \<Longrightarrow> sameSettings s' s'' \<Longrightarrow> sameSettings s s''"
  by (simp add: sameSettings_def)

lemma sameSettings_pageQuery: "sameSettings s s' \<Longrightarrow> pageQuery s' key = pageQuery s key"
  by (simp add: sameSettings_def pageQuery_def Let_def)

lemma sameSettings_effectiveLimit: "sameSettings s s' \<Longrightarrow> effectiveLimit s' = effectiveLimit s"
  by (simp add: sameSettings_def effectiveLimit_def)

lemma foldl_appendPage:
  "foldl reducer st (appendPage lim s k f) =
     (case f of
        None \<Rightarrow> st
      | Some ts \<Rightarrow>
          st\<lparr>tasksByStatus := setKey (tasksByStatus st) k (getKey (tasksByStatus s) k @ ts),
             pageByStatus := setKey (pageByStatus st) k (getKey (pageByStatus s) k + 1),
             hasMoreByStatus := setKey (hasMoreByStatus st) k (length ts = lim)\<rparr>)"
  by (simp add: appendPage_def split: option.split)

lemma pageActions_snoc:
  "pageActions be s (ks @ [k]) =
     pageActions be s ks @ appendPage (effectiveLimit s) s k (fst (fetchPage be False s k))"
  by (simp add: pageActions_def)

lemma hasMore_pageActions:
  "getKey (hasMoreByStatus (foldl reducer st (pageActions be s ks))) k =
     (if k \<in> set ks then
        (case fst (fetchPage be False s k) of
           None \<Rightarrow> getKey (hasMoreByStatus st) k
         | Some ts \<Rightarrow> length ts = effectiveLimit s)
      else getKey (hasMoreByStatus st) k)"
proof (induction ks rule: rev_induct)
  case Nil
  show ?case by (simp add: pageActions_def)
next
  case (snoc x xs)
  then show ?case
    by (auto simp: pageActions_snoc foldl_appendPage getKey_setKey split: option.split if_splits)
qed

lemma tasks_pageActions:
  "getKey (tasksByStatus (foldl reducer st (pageActions be s ks))) k =
     (if k \<in> set ks then
        (case fst (fetchPage be False s k) of
           None \<Rightarrow> getKey (tasksByStatus st) k
         | Some ts \<Rightarrow> getKey (tasksByStatus s) k @ ts)
      else getKey (tasksByStatus st) k)"
proof (induction ks rule: rev_induct)
  case Nil
  show ?case by (simp add: pageActions_def)
next
  case (snoc x xs)
  then show ?case
    by (auto simp: pageActions_snoc foldl_appendPage getKey_setKey split: option.split)
qed

lemma page_pageActions:
  "getKey (pageByStatus (foldl reducer st (pageActions be s ks))) k =
     (if k \<in> set ks then
        (case fst (fetchPage be False s k) of
           None \<Rightarrow> getKey (pageByStatus st) k
         | Some ts \<Rightarrow> getKey (pageByStatus s) k + 1)
      else getKey (pageByStatus st) k)"
proof (induction ks rule: rev_induct)
  case Nil
  show ?case by (simp add: pageActions_def)
next
  case (snoc x xs)
  then show ?case
    by (auto simp: pageActions_snoc foldl_appendPage getKey_setKey split: option.split)
qed

lemma frame_pageActions:
  "sameSettings st (foldl reducer st (pageActions be s ks))
   \<and> totalCountByStatus (foldl reducer st (pageActions be s ks)) = totalCountByStatus st
   \<and> loading (foldl reducer st (pageActions be s ks)) = loading st
   \<and> filtersChanged (foldl reducer st (pageActions be s ks)) = filtersChanged st"
proof (induction ks rule: rev_induct)
  case Nil
  show ?case by (simp add: pageActions_def sameSettings_def)
next
  case (snoc x xs)
  then show ?case
    by (simp add: pageActions_snoc foldl_appendPage sameSettings_def split: option.split)
qed

lemma loadMoreTasks_skipped:
  "loading s \<or> \<not> shouldLoadMore False s (statusesOf sp) \<Longrightarrow> loadMoreTasks be False sp s = nothing"
  by (auto simp: loadMoreTasks_def statusesOf_def)

lemma loadMoreTasks_dispatched:
  assumes "\<not> loading s" and "shouldLoadMore False s (statusesOf sp)"
  shows "dispatched (loadMoreTasks be False sp s) =
           SET_LOADING True # pageActions be s (statusesOf sp) @ [SET_LOADING False]"
  using assms
  by (simp add: loadMoreTasks_def statusesOf_def pageActions_def effectiveLimit_def Let_def
      comp_def map_concat)

lemma loadMoreTasks_run:
  assumes "\<not> loading s" and "shouldLoadMore False s (statusesOf sp)"
  shows "run s (loadMoreTasks be False sp s) =
           (foldl reducer (s\<lparr>loading := True\<rparr>) (pageActions be s (statusesOf sp)))\<lparr>loading := False\<rparr>"
  by (simp add: run_def loadMoreTasks_dispatched [OF assms])

lemma countForKey_eq:
  "countForKey be s key =
     getTaskCountByStatus be (statusKeyToStatusLabel key)
       (if falsy (statusFilter s) \<or> statusFilter s = Some (statusKeyToStatusLabel key)
        then categoryFilter s else None)
       (if falsy (statusFilter s) \<or> statusFilter s = Some (statusKeyToStatusLabel key)
        then subcategoryFilter s else None)
       (if falsy (statusFilter s) \<or> statusFilter s = Some (statusKeyToStatusLabel key)
        then dateRange s else \<lparr>range_from = None, range_to = None\<rparr>)
       (if falsy (statusFilter s) \<or> statusFilter s = Some (statusKeyToStatusLabel key)
        then searchQuery s else None)
       (if falsy (statusFilter s) \<or> statusFilter s = Some (statusKeyToStatusLabel key)
        then selectedCountries s else [])
       (if falsy (statusFilter s) \<or> statusFilter s = Some (statusKeyToStatusLabel key)
        then hourlyBudgetType s else None)
       (if falsy (statusFilter s) \<or> statusFilter s = Some (statusKeyToStatusLabel key)
        then priceRange s else \<lparr>range_from = None, range_to = None\<rparr>)"
  unfolding countForKey_def Let_def ..

lemma countForKey_count:
  "fst (countForKey be s key) =
     (case error (get_task_count_by_status be (countQueryFor s key)) of
        Some e \<Rightarrow> 0
      | None \<Rightarrow> (case data (get_task_count_by_status be (countQueryFor s key)) of
                   None \<Rightarrow> 0 | Some n \<Rightarrow> n))"
  unfolding countForKey_eq getTaskCountByStatus_eq countQueryFor_def Let_def
  by (simp split: option.split)

lemma countForKey_call:
  "fst (snd (countForKey be s key)) = [Get_task_count_by_status (countQueryFor s key)]"
  unfolding countForKey_eq getTaskCountByStatus_call countQueryFor_def Let_def ..

lemma fetchStatusWiseCounts_run:
  "run st (fetchStatusWiseCounts be s) =
     st\<lparr>totalCountByStatus :=
          \<lparr>to_do = fst (countForKey be s To_do),
           in_progress = fst (countForKey be s In_progress),
           done' = fst (countForKey be s Done)\<rparr>\<rparr>"
  by (simp add: run_def fetchStatusWiseCounts_def Let_def statusKeyArray_def)

lemma fetchPage_page:
  "fst (fetchPage be reset s key) =
     (case error (get_task_by_status be (pageQuery s key) (effectiveLimit s)
                    ((if reset then 0 else getKey (pageByStatus s) key) * effectiveLimit s)) of
        Some e \<Rightarrow> Some []
      | None \<Rightarrow> data (get_task_by_status be (pageQuery s key) (effectiveLimit s)
                   ((if reset then 0 else getKey (pageByStatus s) key) * effectiveLimit s)))"
  unfolding fetchPage_eq by (simp split: option.split)

lemma fetchPage_call:
  "fst (snd (fetchPage be reset s key)) =
     [Get_task_by_status (pageQuery s key) (effectiveLimit s)
        ((if reset then 0 else getKey (pageByStatus s) key) * effectiveLimit s)]"
  unfolding fetchPage_eq by (simp split: option.split)

lemma fetchPage_dbBackend:
  "fst (fetchPage (dbBackend matches rows) reset s key) =
     Some (take (effectiveLimit s)
             (drop ((if reset then 0 else getKey (pageByStatus s) key) * effectiveLimit s)
                (filter (matches (pageQuery s key)) rows)))"
  unfolding fetchPage_page by (simp add: dbBackend_def)

lemma countForKey_dbBackend:
  "fst (countForKey (dbBackend matches rows) s key) =
     length (filter (matches (countQueryFor s key)) rows)"
  unfolding countForKey_count by (simp add: dbBackend_def)

lemma loadMoreTasks_reset_dispatched:
  assumes "fst (fetchPage be True s To_do) = Some a"
    and "fst (fetchPage be True s In_progress) = Some b"
    and "fst (fetchPage be True s Done) = Some c"
  shows "dispatched (loadMoreTasks be True None s) =
     [SET_LOADING True,
      SET_PAGE_BY_STATUS To_do 1, SET_HAS_MORE_BY_STATUS To_do (length a = effectiveLimit s),
      SET_PAGE_BY_STATUS In_progress 1, SET_HAS_MORE_BY_STATUS In_progress (length b = effectiveLimit s),
      SET_PAGE_BY_STATUS Done 1, SET_HAS_MORE_BY_STATUS Done (length c = effectiveLimit s),
      SET_TASKS_BY_STATUS \<lparr>to_do = a, in_progress = b, done' = c\<rparr>,
      SET_LOADING False, SET_FILTERS_CHANGED False]"
  using assms
  by (simp add: loadMoreTasks_def statusKeyArray_def shouldLoadMore_def Let_def effectiveLimit_def)

lemma loadMoreTasks_reset_calls:
  "calls (loadMoreTasks be True None s) =
     [Get_task_by_status (pageQuery s To_do) (effectiveLimit s) 0,
      Get_task_by_status (pageQuery s In_progress) (effectiveLimit s) 0,
      Get_task_by_status (pageQuery s Done) (effectiveLimit s) 0]"
  by (simp add: loadMoreTasks_def statusKeyArray_def shouldLoadMore_def Let_def fetchPage_call
      split: prod.split)

lemma take_take_drop: "take n xs @ take m (drop n xs) = take (n + m) xs"
  by (metis add.commute take_add)

lemma countedStatuses_append: "countedStatuses (xs @ ys) = countedStatuses xs @ countedStatuses ys"
  by (induction xs rule: countedStatuses.induct) simp_all

lemma task_status_pageQuery: "task_status (pageQuery s key) = statusKeyToStatusLabel key"
  by (simp add: pageQuery_def Let_def)

lemma task_status_countQueryFor: "task_status (countQueryFor s key) = statusKeyToStatusLabel key"
  by (simp add: countQueryFor_def countQuery_def Let_def)

lemma fetchStatusWiseCounts_calls_eq:
  "calls (fetchStatusWiseCounts be s) =
     [Get_task_count_by_status (countQueryFor s To_do),
      Get_task_count_by_status (countQueryFor s In_progress),
      Get_task_count_by_status (countQueryFor s Done)]"
  by (simp add: fetchStatusWiseCounts_def Let_def statusKeyArray_def countForKey_call)

lemma reload_calls:
  "fetchedPages (calls (andThen (loadMoreTasks be True None s) (fetchStatusWiseCounts be s)))
     = [(''To Do'', 0), (''In Progress'', 0), (''Done'', 0)]
   \<and> countedStatuses (calls (andThen (loadMoreTasks be True None s) (fetchStatusWiseCounts be s)))
     = [''To Do'', ''In Progress'', ''Done'']"
  by (simp add: andThen_def fetchedPages_append countedStatuses_append loadMoreTasks_reset_calls
      fetchStatusWiseCounts_calls_eq task_status_pageQuery task_status_countQueryFor
      statusKeyToStatusLabel_def)

lemma loadMoreTasks_reset_starts:
  "\<exists>rest. dispatched (loadMoreTasks be True None s) = SET_LOADING True # rest"
  by (simp add: loadMoreTasks_def Let_def split: prod.split)

lemma changesFilter_effect:
  assumes "changesFilter s a"
  shows "useEffectFilters be s (reducer s a) =
     andThen \<lparr>dispatched = [RESET_PAGINATION], calls = [], logged = []\<rparr>
       (andThen (loadMoreTasks be True None (reducer s a)) (fetchStatusWiseCounts be (reducer s a)))"
  using assms
  by (cases a) (simp_all add: useEffectFilters_def effectDepsChanged_def filtersChangedEffect_def)

lemma hasMore_after_load:
  "getKey (hasMoreByStatus (run s (loadMoreTasks be False sp s))) k =
     (if \<not> loading s \<and> shouldLoadMore False s (statusesOf sp) \<and> k \<in> set (statusesOf sp) then
        (case fst (fetchPage be False s k) of
           None \<Rightarrow> getKey (hasMoreByStatus s) k
         | Some ts \<Rightarrow> length ts = effectiveLimit s)
      else getKey (hasMoreByStatus s) k)"
proof (cases "\<not> loading s \<and> shouldLoadMore False s (statusesOf sp)")
  case True
  then have "run s (loadMoreTasks be False sp s) =
      (foldl reducer (s\<lparr>loading := True\<rparr>) (pageActions be s (statusesOf sp)))\<lparr>loading := False\<rparr>"
    using loadMoreTasks_run by blast
  then show ?thesis
    using True by (simp add: hasMore_pageActions del: getKey.simps split: option.split)
next
  case False
  then have "loadMoreTasks be False sp s = nothing"
    using loadMoreTasks_skipped by blast
  then show ?thesis
    using False by (auto simp: run_nothing)
qed

lemma exhausted_status_skipped:
  assumes "\<not> getKey (hasMoreByStatus s) k"
  shows "loadMoreTasks be False (Some k) s = nothing"
proof -
  have "\<not> shouldLoadMore False s (statusesOf (Some k))"
    using assms by (simp add: shouldLoadMore_def statusesOf_def)
  then show ?thesis
    using loadMoreTasks_skipped by blast
qed

lemma hasMore_single_status:
  assumes "\<not> getKey (hasMoreByStatus s) k"
  shows "\<not> getKey (hasMoreByStatus (run s (loadMoreTasks be False (Some k') s))) k"
proof (cases "k' = k")
  case True
  then show ?thesis
    using assms by (simp add: exhausted_status_skipped run_nothing del: getKey.simps)
next
  case False
  then show ?thesis
    using assms by (simp add: hasMore_after_load statusesOf_def del: getKey.simps)
qed

lemma hasMore_loadSequence:
  assumes "\<not> getKey (hasMoreByStatus s) k" and "\<forall>c \<in> set cs. snd c \<noteq> None"
  shows "\<not> getKey (hasMoreByStatus (loadSequence s cs)) k"
  using assms
proof (induction cs arbitrary: s)
  case Nil
  then show ?case by simp
next
  case (Cons c cs)
  obtain be sp where c: "c = (be, sp)" by (cases c)
  with Cons.prems(2) obtain k' where sp: "sp = Some k'" by auto
  have "\<not> getKey (hasMoreByStatus (run s (loadMoreTasks be False (Some k') s))) k"
    using Cons.prems(1) by (rule hasMore_single_status)
  moreover have "\<forall>c \<in> set cs. snd c \<noteq> None"
    using Cons.prems(2) by simp
  ultimately show ?case
    unfolding c sp loadSequence.simps by (rule Cons.IH)
qed

lemma matches_writingRow: "matchesQuery writingToDoQuery (writingRow n)"
  by (simp add: matchesQuery_def writingToDoQuery_def writingRow_def)

lemma exampleRows_writing:
  "filter (matchesQuery writingToDoQuery) exampleRows = map writingRow (rev [1..<26])"
proof -
  have "\<not> matchesQuery writingToDoQuery task2"
    by (simp add: matchesQuery_def writingToDoQuery_def task2_def)
  moreover have "filter (matchesQuery writingToDoQuery) (map writingRow ns) = map writingRow ns" for ns
    by (simp add: filter_map comp_def matches_writingRow)
  ultimately show ?thesis
    by (simp add: exampleRows_def)
qed

subsection \<open>The earlier variant\<close>

lemma fetchTasksByStatus_legacy_calls:
  "\<exists>q l. snd (fetchTasksByStatus_legacy be s st f)
      = [Get_tasks_by_status q l (case offsetF f of None \<Rightarrow> 0 | Some n \<Rightarrow> n)]
    \<and> task_status q = st"
  unfolding fetchTasksByStatus_legacy_def Let_def by simp

lemma fetchPage_legacy_calls:
  "\<exists>q l. snd (fetchPage_legacy be reset s key)
     = [Get_tasks_by_status q l
          ((if reset then 0 else getKey (pageByStatus s) key)
             * (case limit s of None \<Rightarrow> pageSize | Some l \<Rightarrow> l))]
       \<and> task_status q = statusKeyToStatusLabel key"
proof -
  let ?f = "\<lparr>categoryFilterF =
              (if falsy (statusFilter s) \<or> statusFilter s = Some (statusKeyToStatusLabel key)
               then categoryFilter s else None),
            subcategoryFilterF =
              (if falsy (statusFilter s) \<or> statusFilter s = Some (statusKeyToStatusLabel key)
               then subcategoryFilter s else None),
            dateRangeF =
              Some (if falsy (statusFilter s) \<or> statusFilter s = Some (statusKeyToStatusLabel key)
                    then dateRange s else \<lparr>range_from = None, range_to = None\<rparr>),
            searchQueryF =
              (if falsy (statusFilter s) \<or> statusFilter s = Some (statusKeyToStatusLabel key)
               then searchQuery s else None),
            limitF = limit s,
            offsetF = Some ((if reset then 0 else getKey (pageByStatus s) key)
                              * (case limit s of None \<Rightarrow> pageSize | Some l \<Rightarrow> l)),
            selectedCountriesF = None,
            hourlyBudgetTypeF = None,
            priceFromF = None,
            priceToF = None\<rparr>"
  have "fetchPage_legacy be reset s key
      = fetchTasksByStatus_legacy be s (statusKeyToStatusLabel key) ?f"
    unfolding fetchPage_legacy_def Let_def ..
  moreover have "(case offsetF ?f of None \<Rightarrow> 0 | Some n \<Rightarrow> n)
      = (if reset then 0 else getKey (pageByStatus s) key)
          * (case limit s of None \<Rightarrow> pageSize | Some l \<Rightarrow> l)"
    by simp
  ultimately show ?thesis
    using fetchTasksByStatus_legacy_calls [of be s "statusKeyToStatusLabel key" ?f]
    by (simp only:)
qed

lemma loadLoop_legacy_pages:
  "fetchedPages (snd (snd (loadLoop_legacy be reset s keys new)))
     = map (\<lambda>key. (statusKeyToStatusLabel key,
                     (if reset then 0 else getKey (pageByStatus s) key)
                       * (case limit s of None \<Rightarrow> pageSize | Some l \<Rightarrow> l))) keys"
proof (induction keys arbitrary: new)
  case Nil
  show ?case by simp
next
  case (Cons key keys)
  obtain q l where c: "snd (fetchPage_legacy be reset s key)
     = [Get_tasks_by_status q l
          ((if reset then 0 else getKey (pageByStatus s) key)
             * (case limit s of None \<Rightarrow> pageSize | Some l \<Rightarrow> l))]"
    "task_status q = statusKeyToStatusLabel key"
    using fetchPage_legacy_calls by blast
  show ?case
    by (simp add: Let_def case_prod_beta c Cons.IH)
qed

lemma loadMoreTasks_legacy_pages:
  "fetchedPages (calls (loadMoreTasks_legacy be reset sp s))
     = map (\<lambda>key. (statusKeyToStatusLabel key,
                     (if reset then 0 else getKey (pageByStatus s) key)
                       * (case limit s of None \<Rightarrow> pageSize | Some l \<Rightarrow> l)))
         (case sp of Some k \<Rightarrow> [k] | None \<Rightarrow> statusKeyArray)"
  by (simp add: loadMoreTasks_legacy_def Let_def case_prod_beta loadLoop_legacy_pages)

lemma loadLoop_legacy_counted:
  "countedStatuses (snd (snd (loadLoop_legacy be reset s keys new))) = []"
proof (induction keys arbitrary: new)
  case Nil
  show ?case by simp
next
  case (Cons key keys)
  obtain q l off where c: "snd (fetchPage_legacy be reset s key) = [Get_tasks_by_status q l off]"
    using fetchPage_legacy_calls by blast
  show ?case
    by (simp add: Let_def case_prod_beta c Cons.IH)
qed

lemma realtimeUpdate_legacy_calls:
  "fetchedPages (calls (realtimeUpdate_legacy be s))
     = [(''To Do'', 0), (''In Progress'', 0), (''Done'', 0)]
   \<and> countedStatuses (calls (realtimeUpdate_legacy be s)) = [''To Do'', ''In Progress'', ''Done'']"
proof -
  have p: "fetchedPages (calls (loadMoreTasks_legacy be True None s))
      = [(''To Do'', 0), (''In Progress'', 0), (''Done'', 0)]"
    unfolding loadMoreTasks_legacy_pages
    by (simp add: statusKeyArray_def statusKeyToStatusLabel_def)
  have c: "countedStatuses (calls (loadMoreTasks_legacy be True None s)) = []"
    by (simp add: loadMoreTasks_legacy_def Let_def case_prod_beta loadLoop_legacy_counted)
  have q: "task_status (countQuery_legacy s key) = statusKeyToStatusLabel key" for key
    by (simp add: countQuery_legacy_def Let_def)
  have n: "calls (fetchStatusWiseCounts_legacy be s)
      = [Select_count (countQuery_legacy s To_do), Select_count (countQuery_legacy s In_progress),
         Select_count (countQuery_legacy s Done)]"
    by (simp add: fetchStatusWiseCounts_legacy_def Let_def statusKeyArray_def)
  show ?thesis
    by (simp add: realtimeUpdate_legacy_def andThen_def fetchedPages_append countedStatuses_append
        p c n q statusKeyToStatusLabel_def)
qed

subsection \<open>Pagination\<close>

text \<open>
  C2, as amended. The filter set \<^verbatim>\<open>{category: "Writing", limit: 10}\<close> is entered in the
  initial store over a backend with exactly 25 rows matching the To Do request. In the
  later variant the first load is the one the filter effect issues, a reset load of
  page 0 of every status together with the count refresh: it leaves the first 10
  matching rows in the to-do list with \<open>hasMore\<close> true. After two further calls of
  \<^verbatim>\<open>loadMoreTasks()\<close> the to-do list holds all 25 rows and \<open>hasMore\<close> is false.
\<close>

theorem writing_scenario_pages:
  assumes "length (filter (matches writingToDoQuery) rows) = 25"
  shows "let be = dbBackend matches rows;
             s1 = run writingLimit10 (useEffectFilters be initialState writingLimit10);
             s2 = run s1 (loadMoreTasks be False None s1);
             s3 = run s2 (loadMoreTasks be False None s2)
         in fetchedPages (calls (useEffectFilters be initialState writingLimit10))
              = [(''To Do'', 0), (''In Progress'', 0), (''Done'', 0)]
            \<and> getKey (tasksByStatus s1) To_do = take 10 (filter (matches writingToDoQuery) rows)
            \<and> length (getKey (tasksByStatus s1) To_do) = 10
            \<and> getKey (hasMoreByStatus s1) To_do
            \<and> getKey (tasksByStatus s3) To_do = filter (matches writingToDoQuery) rows
            \<and> length (getKey (tasksByStatus s3) To_do) = 25
            \<and> \<not> getKey (hasMoreByStatus s3) To_do"
proof -
  define M where "M = filter (matches writingToDoQuery) rows"
  define be where "be = dbBackend matches rows"
  define s0 where "s0 = writingLimit10"
  define s1 where "s1 = run s0 (useEffectFilters be initialState s0)"
  define s2 where "s2 = run s1 (loadMoreTasks be False None s1)"
  define s3 where "s3 = run s2 (loadMoreTasks be False None s2)"
  have len: "length M = 25" using assms by (simp add: M_def)
  have s0: "s0 = initialState\<lparr>categoryFilter := Some ''Writing'', limit := Some 10, filtersChanged := True\<rparr>"
    by (simp add: s0_def writingLimit10_def)
  have q0: "pageQuery s0 To_do = writingToDoQuery"
    by (simp add: s0 pageQuery_def initialState_def writingToDoQuery_def falsy_def
        statusKeyToStatusLabel_def)
  have c0: "countQueryFor s0 To_do = writingToDoQuery"
    by (simp add: s0 countQueryFor_def countQuery_def initialState_def writingToDoQuery_def falsy_def
        statusKeyToStatusLabel_def)
  have l0: "effectiveLimit s0 = 10"
    by (simp add: s0 effectiveLimit_def)
  have eff: "useEffectFilters be initialState s0 = filtersChangedEffect be s0"
    by (simp add: useEffectFilters_def effectDepsChanged_def s0 initialState_def)
  have body: "filtersChangedEffect be s0 =
      andThen \<lparr>dispatched = [RESET_PAGINATION], calls = [], logged = []\<rparr>
        (andThen (loadMoreTasks be True None s0) (fetchStatusWiseCounts be s0))"
    by (simp add: filtersChangedEffect_def s0)
  obtain b c where bc: "fst (fetchPage be True s0 In_progress) = Some b"
      "fst (fetchPage be True s0 Done) = Some c"
    by (simp add: be_def fetchPage_dbBackend)
  have a: "fst (fetchPage be True s0 To_do) = Some (take 10 M)"
    by (simp add: be_def fetchPage_dbBackend q0 l0 M_def)
  note d = loadMoreTasks_reset_dispatched [OF a bc]
  have s1_eq: "s1 = (foldl reducer (reducer s0 RESET_PAGINATION) (dispatched (loadMoreTasks be True None s0)))
      \<lparr>totalCountByStatus :=
          \<lparr>to_do = fst (countForKey be s0 To_do),
           in_progress = fst (countForKey be s0 In_progress),
           done' = fst (countForKey be s0 Done)\<rparr>\<rparr>"
    unfolding s1_def eff body run_andThen fetchStatusWiseCounts_run
    by (simp add: run_def)
  have t1: "getKey (tasksByStatus s1) To_do = take 10 M"
    unfolding s1_eq d by simp
  have h1: "getKey (hasMoreByStatus s1) To_do"
    unfolding s1_eq d by (simp add: l0 len)
  have p1: "getKey (pageByStatus s1) To_do = 1"
    unfolding s1_eq d by simp
  have n1: "getKey (totalCountByStatus s1) To_do = 25"
    unfolding s1_eq by (simp add: be_def countForKey_dbBackend c0 len [unfolded M_def])
  have ld1: "\<not> loading s1"
    unfolding s1_eq d by simp
  have set1: "sameSettings s0 s1"
    unfolding s1_eq d by (simp add: sameSettings_def)
  have calls1: "fetchedPages (calls (useEffectFilters be initialState s0))
      = [(''To Do'', 0), (''In Progress'', 0), (''Done'', 0)]"
    unfolding eff body
    by (simp add: andThen_def fetchedPages_append loadMoreTasks_reset_calls pageQuery_def Let_def
        statusKeyToStatusLabel_def fetchStatusWiseCounts_def statusKeyArray_def countForKey_call)
  have go1: "shouldLoadMore False s1 (statusesOf None)"
    by (simp add: shouldLoadMore_def statusesOf_def statusKeyArray_def t1 h1 n1 len del: getKey.simps)
  note r1 = loadMoreTasks_run [OF ld1 go1, of be]
  have f1: "fst (fetchPage be False s1 To_do) = Some (take 10 (drop 10 M))"
    by (simp add: be_def fetchPage_dbBackend sameSettings_pageQuery [OF set1]
        sameSettings_effectiveLimit [OF set1] q0 l0 p1 M_def del: getKey.simps)
  have in_all: "To_do \<in> set (statusesOf None)"
    by (simp add: statusesOf_def statusKeyArray_def)
  have t2: "getKey (tasksByStatus s2) To_do = take 20 M"
    unfolding s2_def r1
    by (simp add: tasks_pageActions in_all f1 t1 take_take_drop del: getKey.simps)
  have h2: "getKey (hasMoreByStatus s2) To_do"
    unfolding s2_def r1
    by (simp add: hasMore_pageActions in_all f1 sameSettings_effectiveLimit [OF set1] l0 len
        del: getKey.simps)
  have p2: "getKey (pageByStatus s2) To_do = 2"
    unfolding s2_def r1 by (simp add: page_pageActions in_all f1 p1 del: getKey.simps)
  have fr2: "sameSettings s1 s2 \<and> totalCountByStatus s2 = totalCountByStatus s1 \<and> \<not> loading s2"
    unfolding s2_def r1 using frame_pageActions [of "s1\<lparr>loading := True\<rparr>" be s1 "statusesOf None"]
    by (simp add: sameSettings_def)
  have set2: "sameSettings s0 s2"
    using set1 fr2 sameSettings_trans by blast
  have go2: "shouldLoadMore False s2 (statusesOf None)"
    using fr2
    by (simp add: shouldLoadMore_def statusesOf_def statusKeyArray_def t2 h2 n1 len del: getKey.simps)
  have ld2: "\<not> loading s2" using fr2 by simp
  note r2 = loadMoreTasks_run [OF ld2 go2, of be]
  have f2: "fst (fetchPage be False s2 To_do) = Some (take 10 (drop 20 M))"
    by (simp add: be_def fetchPage_dbBackend sameSettings_pageQuery [OF set2]
        sameSettings_effectiveLimit [OF set2] q0 l0 p2 M_def del: getKey.simps)
  have t3: "getKey (tasksByStatus s3) To_do = M"
    unfolding s3_def r2
    by (simp add: tasks_pageActions in_all f2 t2 take_take_drop len del: getKey.simps)
  have h3: "\<not> getKey (hasMoreByStatus s3) To_do"
    unfolding s3_def r2
    by (simp add: hasMore_pageActions in_all f2 sameSettings_effectiveLimit [OF set2] l0 len
        del: getKey.simps)
  show ?thesis
    using calls1 t1 h1 t3 h3 len
    unfolding Let_def s1_def [symmetric] s2_def [symmetric] s3_def [symmetric]
      be_def [symmetric] s0_def [symmetric] M_def [symmetric]
    by simp
qed

theorem writing_scenario_pages_witness:
  "length (filter (matchesQuery writingToDoQuery) exampleRows) = 25
   \<and> (let be = dbBackend matchesQuery exampleRows;
           s1 = run writingLimit10 (useEffectFilters be initialState writingLimit10);
           s2 = run s1 (loadMoreTasks be False None s1);
           s3 = run s2 (loadMoreTasks be False None s2)
       in fetchedPages (calls (useEffectFilters be initialState writingLimit10))
            = [(''To Do'', 0), (''In Progress'', 0), (''Done'', 0)]
          \<and> getKey (tasksByStatus s1) To_do = take 10 (filter (matchesQuery writingToDoQuery) exampleRows)
          \<and> length (getKey (tasksByStatus s1) To_do) = 10
          \<and> getKey (hasMoreByStatus s1) To_do
          \<and> getKey (tasksByStatus s3) To_do = filter (matchesQuery writingToDoQuery) exampleRows
          \<and> length (getKey (tasksByStatus s3) To_do) = 25
          \<and> \<not> getKey (hasMoreByStatus s3) To_do)"
proof -
  have h: "length (filter (matchesQuery writingToDoQuery) exampleRows) = 25"
    by (simp add: exampleRows_writing)
  show ?thesis
    by (rule conjI [OF h writing_scenario_pages [of matchesQuery exampleRows, OF h]])
qed

text \<open>
  C2 as stated fails in two ways. In the earlier variant three calls of
  \<^verbatim>\<open>loadMoreTasks()\<close> load 10 and then all 25 rows, but the third page has 5 rows and
  \<open>fetched.length > 0\<close> leaves \<open>hasMore\<close> true. In the later variant a call of
  \<^verbatim>\<open>loadMoreTasks()\<close> in the store with the filter set, before any count refresh, finds
  every total at 0 and returns without loading.
\<close>

theorem writing_scenario_counterexample:
  "length (filter (matchesQuery writingToDoQuery) exampleRows) = 25
   \<and> length (getKey (tasksByStatus (legacyLoads exampleBackend 1 writingLimit10)) To_do) = 10
   \<and> length (getKey (tasksByStatus (legacyLoads exampleBackend 3 writingLimit10)) To_do) = 25
   \<and> getKey (hasMoreByStatus (legacyLoads exampleBackend 3 writingLimit10)) To_do
   \<and> run writingLimit10 (loadMoreTasks exampleBackend False None writingLimit10) = writingLimit10
   \<and> getKey (tasksByStatus writingLimit10) To_do = []"
  by code_simp

subsection \<open>Filter changes\<close>

text \<open>
  C3: an action that changes one of the nine filter fields sets \<open>filtersChanged\<close>, and
  the effect that follows dispatches \<^verbatim>\<open>RESET_PAGINATION\<close> first, which empties the three
  lists, sets every page to 0 and every \<open>hasMore\<close> to true, and issues exactly one page
  fetch per status, at offset 0.
\<close>

theorem filter_change_resets_and_reloads:
  assumes "changesFilter s a"
  shows "let s1 = reducer s a;
             out = useEffectFilters be s s1
         in (\<exists>rest. dispatched out = RESET_PAGINATION # SET_LOADING True # rest)
            \<and> tasksByStatus (reducer s1 RESET_PAGINATION) = \<lparr>to_do = [], in_progress = [], done' = []\<rparr>
            \<and> pageByStatus (reducer s1 RESET_PAGINATION) = \<lparr>to_do = 0, in_progress = 0, done' = 0\<rparr>
            \<and> hasMoreByStatus (reducer s1 RESET_PAGINATION)
                 = \<lparr>to_do = True, in_progress = True, done' = True\<rparr>
            \<and> fetchedPages (calls out) = [(''To Do'', 0), (''In Progress'', 0), (''Done'', 0)]"
proof -
  obtain rest where r: "dispatched (loadMoreTasks be True None (reducer s a)) = SET_LOADING True # rest"
    using loadMoreTasks_reset_starts by blast
  have c: "fetchedPages (calls (useEffectFilters be s (reducer s a)))
      = [(''To Do'', 0), (''In Progress'', 0), (''Done'', 0)]"
    unfolding changesFilter_effect [OF assms]
    using reload_calls [of be "reducer s a"] by (simp add: andThen_def)
  have d: "\<exists>rest. dispatched (useEffectFilters be s (reducer s a))
      = RESET_PAGINATION # SET_LOADING True # rest"
    unfolding changesFilter_effect [OF assms] by (simp add: andThen_def r)
  show ?thesis
    unfolding Let_def using c d by simp
qed

theorem filter_change_resets_and_reloads_witness:
  "changesFilter boardState (SET_SEARCH_QUERY (Some ''logo''))
   \<and> (let s1 = reducer boardState (SET_SEARCH_QUERY (Some ''logo''));
           out = useEffectFilters emptyBackend boardState s1
       in (\<exists>rest. dispatched out = RESET_PAGINATION # SET_LOADING True # rest)
          \<and> tasksByStatus (reducer s1 RESET_PAGINATION) = \<lparr>to_do = [], in_progress = [], done' = []\<rparr>
          \<and> pageByStatus (reducer s1 RESET_PAGINATION) = \<lparr>to_do = 0, in_progress = 0, done' = 0\<rparr>
          \<and> hasMoreByStatus (reducer s1 RESET_PAGINATION)
               = \<lparr>to_do = True, in_progress = True, done' = True\<rparr>
          \<and> fetchedPages (calls out) = [(''To Do'', 0), (''In Progress'', 0), (''Done'', 0)])"
proof -
  have h: "changesFilter boardState (SET_SEARCH_QUERY (Some ''logo''))"
    by (simp add: boardState_def initialState_def)
  show ?thesis
    by (rule conjI [OF h filter_change_resets_and_reloads [of boardState _ emptyBackend, OF h]])
qed

subsection \<open>The has-more flag\<close>

text \<open>
  C4, as amended. Once \<open>hasMore\<close> of a status is false, a call of \<^verbatim>\<open>loadMoreTasks\<close>
  without reset for that status alone is skipped, and no run of calls without reset that
  each name a single status sets it back to true. A call without reset over all statuses
  fetches that status again whenever it proceeds, and sets its \<open>hasMore\<close> to true exactly
  when the fetch returns as many rows as the limit. \<^verbatim>\<open>RESET_PAGINATION\<close> sets it to
  true.
\<close>

theorem hasMore_false_until_full_page:
  assumes "\<not> getKey (hasMoreByStatus s) k"
  shows "run s (loadMoreTasks be False (Some k) s) = s
         \<and> calls (loadMoreTasks be False (Some k) s) = []
         \<and> ((\<forall>c \<in> set cs. snd c \<noteq> None) \<longrightarrow> \<not> getKey (hasMoreByStatus (loadSequence s cs)) k)
         \<and> (getKey (hasMoreByStatus (run s (loadMoreTasks be False None s))) k
              \<longleftrightarrow> \<not> loading s \<and> shouldLoadMore False s statusKeyArray
                  \<and> (\<exists>tasks. fst (fetchPage be False s k) = Some tasks
                              \<and> length tasks = effectiveLimit s))
         \<and> getKey (hasMoreByStatus (reducer s RESET_PAGINATION)) k"
proof -
  have 1: "loadMoreTasks be False (Some k) s = nothing"
    using assms by (rule exhausted_status_skipped)
  have 2: "(\<forall>c \<in> set cs. snd c \<noteq> None) \<longrightarrow> \<not> getKey (hasMoreByStatus (loadSequence s cs)) k"
    using assms hasMore_loadSequence by blast
  have all: "k \<in> set (statusesOf None)"
    by (cases k) (simp_all add: statusesOf_def statusKeyArray_def)
  have 3: "getKey (hasMoreByStatus (run s (loadMoreTasks be False None s))) k
      \<longleftrightarrow> \<not> loading s \<and> shouldLoadMore False s statusKeyArray
          \<and> (\<exists>tasks. fst (fetchPage be False s k) = Some tasks \<and> length tasks = effectiveLimit s)"
    unfolding hasMore_after_load using assms all
    by (auto simp: statusesOf_def split: option.splits)
  have 4: "getKey (hasMoreByStatus (reducer s RESET_PAGINATION)) k"
    by (cases k) simp_all
  show ?thesis
    using 1 2 3 4 by (simp add: run_nothing) (simp add: nothing_def)
qed

theorem hasMore_false_until_full_page_witness:
  "\<not> getKey (hasMoreByStatus smallBoard) To_do
   \<and> run smallBoard (loadMoreTasks (dbBackend matchesQuery grownBoardRows) False (Some To_do) smallBoard)
       = smallBoard
   \<and> calls (loadMoreTasks (dbBackend matchesQuery grownBoardRows) False (Some To_do) smallBoard) = []
   \<and> \<not> getKey (hasMoreByStatus
           (loadSequence smallBoard
              [(dbBackend matchesQuery grownBoardRows, Some In_progress),
               (dbBackend matchesQuery grownBoardRows, Some To_do)])) To_do
   \<and> getKey (hasMoreByStatus (reducer smallBoard RESET_PAGINATION)) To_do"
proof -
  have h: "\<not> getKey (hasMoreByStatus smallBoard) To_do"
    by code_simp
  show ?thesis
    using h hasMore_false_until_full_page [OF h, of "dbBackend matchesQuery grownBoardRows"
        "[(dbBackend matchesQuery grownBoardRows, Some In_progress),
          (dbBackend matchesQuery grownBoardRows, Some To_do)]"]
    by simp
qed

text \<open>
  C4 as stated fails for a call over all statuses. The board was loaded when the backend
  held one To Do row and twelve In Progress rows, so \<open>hasMore\<close> of to-do is false; the
  backend then gained twenty To Do rows. The next \<^verbatim>\<open>loadMoreTasks()\<close> proceeds because
  in-progress has more, fetches to-do at offset 10, gets a full page and sets \<open>hasMore\<close>
  of to-do to true.
\<close>

theorem hasMore_reopened_counterexample:
  "\<not> getKey (hasMoreByStatus smallBoard) To_do
   \<and> getKey (hasMoreByStatus
         (run smallBoard
            (loadMoreTasks (dbBackend matchesQuery grownBoardRows) False None smallBoard))) To_do"
  by code_simp

subsection \<open>Loads in flight\<close>

text \<open>
  C5, as amended. In the later variant, while \<open>loading\<close> is true \<^verbatim>\<open>loadMoreTasks\<close>
  without reset returns at once: no remote call is issued and nothing is dispatched, so
  the store is unchanged. The earlier variant has no such check: whatever \<open>loading\<close> is,
  its \<^verbatim>\<open>loadMoreTasks\<close> fetches the next page of each status it is called for.
\<close>

theorem loadMoreTasks_skipped_while_loading:
  assumes "loading s"
  shows "dispatched (loadMoreTasks be False specificStatus s) = []
         \<and> calls (loadMoreTasks be False specificStatus s) = []
         \<and> run s (loadMoreTasks be False specificStatus s) = s
         \<and> fetchedPages (calls (loadMoreTasks_legacy be False specificStatus s))
             = map (\<lambda>key. (statusKeyToStatusLabel key,
                             getKey (pageByStatus s) key
                               * (case limit s of None \<Rightarrow> pageSize | Some l \<Rightarrow> l)))
                 (case specificStatus of Some k \<Rightarrow> [k] | None \<Rightarrow> statusKeyArray)"
  using assms
  by (simp add: loadMoreTasks_def nothing_def run_def loadMoreTasks_legacy_pages)

theorem loadMoreTasks_skipped_while_loading_witness:
  "loading (boardState\<lparr>loading := True\<rparr>)
   \<and> calls (loadMoreTasks emptyBackend False None (boardState\<lparr>loading := True\<rparr>)) = []
   \<and> run (boardState\<lparr>loading := True\<rparr>)
         (loadMoreTasks emptyBackend False None (boardState\<lparr>loading := True\<rparr>))
       = boardState\<lparr>loading := True\<rparr>
   \<and> fetchedPages (calls (loadMoreTasks_legacy emptyBackend False (Some Done)
         (boardState\<lparr>loading := True\<rparr>))) = [(''Done'', 0)]"
proof -
  have h: "loading (boardState\<lparr>loading := True\<rparr>)"
    by simp
  show ?thesis
    using h loadMoreTasks_skipped_while_loading [OF h, of emptyBackend None]
      loadMoreTasks_skipped_while_loading [OF h, of emptyBackend "Some Done"]
    by (simp add: boardState_def initialState_def statusKeyToStatusLabel_def)
qed

text \<open>
  C5 as stated fails in the earlier variant: with \<open>loading\<close> true, \<^verbatim>\<open>loadMoreTasks()\<close>
  issues three page fetches and moves every page to 1.
\<close>

theorem legacy_load_while_loading_counterexample:
  "loading (boardState\<lparr>loading := True\<rparr>)
   \<and> fetchedPages (calls (loadMoreTasks_legacy emptyBackend False None (boardState\<lparr>loading := True\<rparr>)))
       = [(''To Do'', 0), (''In Progress'', 0), (''Done'', 0)]
   \<and> pageByStatus (run (boardState\<lparr>loading := True\<rparr>)
         (loadMoreTasks_legacy emptyBackend False None (boardState\<lparr>loading := True\<rparr>)))
       = \<lparr>to_do = 1, in_progress = 1, done' = 1\<rparr>"
  by code_simp

subsection \<open>Realtime notifications\<close>

text \<open>
  C6, as amended. Two change notifications less than the debounce window apart lead to
  exactly one run of the debounced function, one window after the second one. In the
  later variant (window 1000 ms) that run starts one reset load (one page fetch per
  status at offset 0) and one count refresh when \<open>loading\<close> is false at that moment, and
  does nothing when it is true. In the earlier variant (window 300 ms) it always starts
  one reset load and one count refresh.
\<close>

theorem realtime_burst_coalesced:
  assumes "t1 \<le> t2" and "t2 < t1 + 1000"
  shows "debounce 1000 [t1, t2] = [t2 + 1000]
         \<and> handleRealtimeUpdate be stateAt [t1, t2] = [realtimeUpdate be (stateAt (t2 + 1000))]
         \<and> (\<not> loading (stateAt (t2 + 1000)) \<longrightarrow>
               realtimeUpdate be (stateAt (t2 + 1000))
                 = andThen (loadMoreTasks be True None (stateAt (t2 + 1000)))
                     (fetchStatusWiseCounts be (stateAt (t2 + 1000)))
               \<and> fetchedPages (calls (realtimeUpdate be (stateAt (t2 + 1000))))
                   = [(''To Do'', 0), (''In Progress'', 0), (''Done'', 0)]
               \<and> countedStatuses (calls (realtimeUpdate be (stateAt (t2 + 1000))))
                   = [''To Do'', ''In Progress'', ''Done''])
         \<and> (loading (stateAt (t2 + 1000)) \<longrightarrow>
               dispatched (realtimeUpdate be (stateAt (t2 + 1000))) = []
               \<and> calls (realtimeUpdate be (stateAt (t2 + 1000))) = [])
         \<and> (t2 < t1 + 300 \<longrightarrow>
               debounce 300 [t1, t2] = [t2 + 300]
               \<and> debouncedRealtimeUpdate be mountState [t1, t2] = [realtimeUpdate_legacy be mountState]
               \<and> fetchedPages (calls (realtimeUpdate_legacy be mountState))
                   = [(''To Do'', 0), (''In Progress'', 0), (''Done'', 0)]
               \<and> countedStatuses (calls (realtimeUpdate_legacy be mountState))
                   = [''To Do'', ''In Progress'', ''Done''])"
  using assms reload_calls [of be "stateAt (t2 + 1000)"] realtimeUpdate_legacy_calls [of be mountState]
  by (simp add: handleRealtimeUpdate_def realtimeUpdate_def nothing_def debouncedRealtimeUpdate_def)

theorem realtime_burst_coalesced_witness:
  "(0::nat) \<le> 200 \<and> (200::nat) < 0 + 1000
   \<and> \<not> loading boardState
   \<and> handleRealtimeUpdate emptyBackend (\<lambda>t. boardState) [0, 200]
       = [realtimeUpdate emptyBackend boardState]
   \<and> fetchedPages (calls (realtimeUpdate emptyBackend boardState))
       = [(''To Do'', 0), (''In Progress'', 0), (''Done'', 0)]
   \<and> countedStatuses (calls (realtimeUpdate emptyBackend boardState))
       = [''To Do'', ''In Progress'', ''Done'']
   \<and> debouncedRealtimeUpdate emptyBackend initialState [0, 200]
       = [realtimeUpdate_legacy emptyBackend initialState]"
proof -
  have h1: "(0::nat) \<le> 200" and h2: "(200::nat) < 0 + 1000" and h3: "(200::nat) < 0 + 300"
    by simp_all
  have l: "\<not> loading boardState"
    by (simp add: boardState_def initialState_def)
  show ?thesis
    using h1 h2 h3 l
      realtime_burst_coalesced [OF h1 h2, of emptyBackend "\<lambda>t. boardState" initialState]
    by blast
qed

text \<open>
  C6 as stated fails in the later variant while a load is in flight: with \<open>loading\<close>
  true when the timer fires, the two notifications trigger no reload and no count
  refresh at all.
\<close>

theorem realtime_burst_dropped_counterexample:
  "debounce 1000 [0, 200] = [1200]
   \<and> loading (boardState\<lparr>loading := True\<rparr>)
   \<and> concat (map calls
         (handleRealtimeUpdate emptyBackend (\<lambda>t. boardState\<lparr>loading := True\<rparr>) [0, 200])) = []
   \<and> concat (map dispatched
         (handleRealtimeUpdate emptyBackend (\<lambda>t. boardState\<lparr>loading := True\<rparr>) [0, 200])) = []"
  by (simp add: handleRealtimeUpdate_def realtimeUpdate_def nothing_def)

section \<open>Properties of the comment thread\<close>

lemma collect_map_Some: "collect (map Some ys) = Some ys"
  by (induction ys) simp_all

lemma collect_Some: "collect xs = Some ys \<longleftrightarrow> xs = map Some ys"
proof
  show "collect xs = Some ys \<Longrightarrow> xs = map Some ys"
  proof (induction xs arbitrary: ys)
    case Nil
    then show ?case by simp
  next
    case (Cons x xs)
    then show ?case
      by (cases x) (auto split: option.splits)
  qed
next
  show "xs = map Some ys \<Longrightarrow> collect xs = Some ys"
    by (simp add: collect_map_Some)
qed

lemma collect_None: "collect xs = None \<longleftrightarrow> None \<in> set xs"
  by (induction xs rule: collect.induct) (auto split: option.splits)

lemma renderComments_Suc:
  "renderComments (Suc n) cs pid = Some forest \<longleftrightarrow>
     list_all2 (\<lambda>c e. \<exists>nested. renderComments n cs (Some (comment_id c)) = Some nested
                         \<and> e = Element c nested)
       (filter (\<lambda>c. parent_id c = pid) cs) forest"
proof -
  have "renderComments (Suc n) cs pid = Some forest \<longleftrightarrow>
      list_all2 (=)
        (map (\<lambda>c. case renderComments n cs (Some (comment_id c)) of
                     None \<Rightarrow> None | Some nested \<Rightarrow> Some (Element c nested))
           (filter (\<lambda>c. parent_id c = pid) cs))
        (map Some forest)"
    by (simp only: renderComments.simps collect_Some list.rel_eq)
  also have "\<dots> \<longleftrightarrow> list_all2 (\<lambda>c e. (case renderComments n cs (Some (comment_id c)) of
                     None \<Rightarrow> None | Some nested \<Rightarrow> Some (Element c nested)) = Some e)
       (filter (\<lambda>c. parent_id c = pid) cs) forest"
    by (simp add: list_all2_map1 list_all2_map2)
  also have "\<dots> \<longleftrightarrow> list_all2 (\<lambda>c e. \<exists>nested. renderComments n cs (Some (comment_id c)) = Some nested
                         \<and> e = Element c nested)
       (filter (\<lambda>c. parent_id c = pid) cs) forest"
    by (rule arg_cong2 [where f = "\<lambda>P xs. list_all2 P xs forest"])
       (auto simp: fun_eq_iff split: option.splits)
  finally show ?thesis .
qed

lemma rendered_level:
  assumes "renderComments n cs pid = Some forest"
  shows "map commentOf forest = filter (\<lambda>c. parent_id c = pid) cs"
proof (cases n)
  case 0
  with assms show ?thesis by simp
next
  case (Suc m)
  with assms have "list_all2 (\<lambda>c e. \<exists>nested. renderComments m cs (Some (comment_id c)) = Some nested
                         \<and> e = Element c nested) (filter (\<lambda>c. parent_id c = pid) cs) forest"
    by (simp only: renderComments_Suc)
  then have "list_all2 (\<lambda>c e. commentOf e = c) (filter (\<lambda>c. parent_id c = pid) cs) forest"
    by (rule list_all2_mono) auto
  then show ?thesis
    by (induction rule: list_all2_induct) auto
qed

lemma rendered_nested:
  assumes "renderComments n cs pid = Some forest"
    and "Element q kids \<in> set (allElements forest)"
  shows "map commentOf kids = filter (\<lambda>c. parent_id c = Some (comment_id q)) cs"
  using assms
proof (induction n arbitrary: pid forest)
  case 0
  then show ?case by simp
next
  case (Suc n)
  from Suc.prems(2) obtain e where e: "e \<in> set forest" "Element q kids \<in> set (descendants e)"
    by (auto simp: allElements_def)
  from Suc.prems(1) have "list_all2 (\<lambda>c e. \<exists>nested. renderComments n cs (Some (comment_id c)) = Some nested
                         \<and> e = Element c nested) (filter (\<lambda>c. parent_id c = pid) cs) forest"
    by (simp only: renderComments_Suc)
  with e(1) obtain c nested where c: "renderComments n cs (Some (comment_id c)) = Some nested"
      "e = Element c nested"
    by (auto simp: list_all2_conv_all_nth in_set_conv_nth)
  from e(2) c(2) consider "Element q kids = Element c nested"
    | "Element q kids \<in> set (allElements nested)"
    by (auto simp: allElements_def)
  then show ?case
  proof cases
    case 1
    then show ?thesis using rendered_level [OF c(1)] by simp
  next
    case 2
    then show ?thesis using Suc.IH [OF c(1)] by simp
  qed
qed

lemma path_parent:
  "threadPath xs \<Longrightarrow> d \<in> set xs \<Longrightarrow> parent_id d = Some i \<Longrightarrow> \<exists>q \<in> set (tl xs). comment_id q = i"
  by (induction xs rule: threadPath.induct) auto

lemma path_extend:
  assumes "threadPath xs" and "distinct xs" and "inj_on comment_id (set cs)"
    and "set xs \<subseteq> set cs" and "d \<in> set cs"
    and "parent_id d = (case xs of [] \<Rightarrow> None | p # rest \<Rightarrow> Some (comment_id p))"
  shows "threadPath (d # xs) \<and> distinct (d # xs)"
proof (cases xs)
  case Nil
  with assms show ?thesis by simp
next
  case (Cons p rest)
  have "d \<notin> set xs"
  proof
    assume "d \<in> set xs"
    moreover have "parent_id d = Some (comment_id p)"
      using assms(6) Cons by simp
    ultimately obtain q where q: "q \<in> set (tl xs)" "comment_id q = comment_id p"
      using path_parent [OF assms(1)] by blast
    then have "q \<in> set cs" "p \<in> set cs"
      using assms(4) Cons by auto
    with q(2) assms(3) have "q = p"
      by (auto dest: inj_onD)
    with q(1) Cons assms(2) show False by simp
  qed
  with assms Cons show ?thesis by simp
qed

lemma renderComments_returns:
  assumes inj: "inj_on comment_id (set cs)"
  shows "threadPath xs \<Longrightarrow> distinct xs \<Longrightarrow> set xs \<subseteq> set cs
    \<Longrightarrow> pid = (case xs of [] \<Rightarrow> None | p # rest \<Rightarrow> Some (comment_id p))
    \<Longrightarrow> length cs < n + length xs \<Longrightarrow> renderComments n cs pid \<noteq> None"
proof (induction n arbitrary: xs pid)
  case 0
  have "length xs = card (set xs)"
    using 0(2) by (simp add: distinct_card)
  also have "\<dots> \<le> card (set cs)"
    using 0(3) by (simp add: card_mono)
  also have "\<dots> \<le> length cs"
    by (rule card_length)
  finally show ?case using 0(5) by simp
next
  case (Suc n)
  have "renderComments n cs (Some (comment_id d)) \<noteq> None"
    if d: "d \<in> set cs" "parent_id d = pid" for d
  proof -
    have "threadPath (d # xs) \<and> distinct (d # xs)"
      using Suc.prems(1,2) inj Suc.prems(3) d(1) d(2) [unfolded Suc.prems(4)] by (rule path_extend)
    moreover have "set (d # xs) \<subseteq> set cs"
      using d(1) Suc.prems(3) by simp
    moreover have "length cs < n + length (d # xs)"
      using Suc.prems(5) by simp
    ultimately show ?thesis
      using Suc.IH [of "d # xs" "Some (comment_id d)"] by simp
  qed
  then have "None \<notin> set (map (\<lambda>c. case renderComments n cs (Some (comment_id c)) of
                   None \<Rightarrow> None | Some nested \<Rightarrow> Some (Element c nested))
          (filter (\<lambda>c. parent_id c = pid) cs))"
    by (fastforce split: option.splits)
  then show ?case
    by (simp only: renderComments.simps collect_None not_False_eq_True)
qed

lemma descendants_self: "e \<in> set (descendants e)"
  by (cases e) simp

lemma descendants_child:
  "Element q kids \<in> set (descendants f) \<Longrightarrow> e \<in> set kids \<Longrightarrow> e \<in> set (descendants f)"
proof (induction f rule: descendants.induct)
  case (1 c nested)
  from 1(2) consider "Element q kids = Element c nested"
    | g where "g \<in> set nested" "Element q kids \<in> set (descendants g)"
    by auto
  then show ?case
  proof cases
    case 1
    with \<open>e \<in> set kids\<close> have "e \<in> set nested" by simp
    then show ?thesis using descendants_self [of e] by auto
  next
    case 2
    then have "e \<in> set (descendants g)"
      using "1.IH" "1.prems"(2) by blast
    with 2(1) show ?thesis by auto
  qed
qed

lemma allElements_child:
  "Element q kids \<in> set (allElements forest) \<Longrightarrow> e \<in> set kids \<Longrightarrow> e \<in> set (allElements forest)"
  by (auto simp: allElements_def dest: descendants_child)

lemma allElements_top: "e \<in> set forest \<Longrightarrow> e \<in> set (allElements forest)"
  using descendants_self by (auto simp: allElements_def)

lemma element_of_comment:
  "d \<in> set (map commentOf es) \<Longrightarrow> \<exists>replies. Element d replies \<in> set es"
proof -
  assume "d \<in> set (map commentOf es)"
  then obtain e where e: "e \<in> set es" "commentOf e = d" by auto
  show ?thesis
  proof (cases e)
    case (Element c' replies)
    with e show ?thesis by auto
  qed
qed

lemma rendered_reply:
  assumes "renderComments n cs pid = Some forest"
    and "Element q kids \<in> set (allElements forest)"
    and "d \<in> set cs" and "parent_id d = Some (comment_id q)"
  shows "\<exists>replies. Element d replies \<in> set kids"
proof -
  have "map commentOf kids = filter (\<lambda>c. parent_id c = Some (comment_id q)) cs"
    using assms(1,2) by (rule rendered_nested)
  with assms(3,4) have "d \<in> set (map commentOf kids)" by simp
  then show ?thesis by (rule element_of_comment)
qed

lemma chain_is_rendered:
  assumes r: "renderComments n cs None = Some forest"
  shows "threadPath xs \<Longrightarrow> set xs \<subseteq> set cs \<Longrightarrow> d \<in> set xs
    \<Longrightarrow> \<exists>replies. Element d replies \<in> set (allElements forest)"
proof (induction xs arbitrary: d rule: threadPath.induct)
  case 1
  then show ?case by simp
next
  case (2 c)
  then have "d \<in> set (filter (\<lambda>c. parent_id c = None) cs)" by simp
  then have "d \<in> set (map commentOf forest)"
    using rendered_level [OF r] by simp
  then obtain replies where "Element d replies \<in> set forest"
    using element_of_comment by blast
  then show ?case using allElements_top by blast
next
  case (3 c p rest)
  show ?case
  proof (cases "d = c")
    case True
    from 3 obtain kids where kids: "Element p kids \<in> set (allElements forest)"
      by fastforce
    have "c \<in> set cs" "parent_id c = Some (comment_id p)"
      using 3 by simp_all
    with r kids obtain replies where "Element c replies \<in> set kids"
      using rendered_reply by blast
    with kids True show ?thesis using allElements_child by blast
  next
    case False
    with 3 show ?thesis by simp
  qed
qed

text \<open>
  C9, as amended. Let \<open>c\<close> be a comment of the list whose parent reference is the id of
  \<open>p\<close>. In whatever order the list is, every element that \<^verbatim>\<open>renderComments()\<close> builds
  for \<open>p\<close>, at any depth, has the element of \<open>c\<close> directly nested in it, and \<open>c\<close> is not
  rendered at the top level. When moreover the chain of parent references of \<open>p\<close> stays in
  the list and ends at a top-level comment (\<open>p\<close> followed by its \<open>ancestors\<close> is a
  \<open>threadPath\<close>), the rendering does contain an element for \<open>p\<close>, with an element for
  \<open>c\<close> directly nested in it. When the ids of the list are distinct the rendering returns
  (within depth one more than the number of comments), so that with such a chain the
  returned rendering shows \<open>c\<close> nested in \<open>p\<close>.
\<close>

theorem reply_nested_under_rendered_parent:
  assumes "c \<in> set comments" and "parent_id c = Some (comment_id p)"
  shows "(renderComments fuel comments None = Some forest \<longrightarrow>
            (\<forall>nested. Element p nested \<in> set (allElements forest) \<longrightarrow> c \<in> set (map commentOf nested))
            \<and> c \<notin> set (map commentOf forest)
            \<and> (threadPath (p # ancestors) \<and> set (p # ancestors) \<subseteq> set comments \<longrightarrow>
                 (\<exists>nested replies. Element p nested \<in> set (allElements forest)
                    \<and> Element c replies \<in> set nested)))
         \<and> (distinct (map comment_id comments) \<longrightarrow>
              (\<exists>forest. renderComments (Suc (length comments)) comments None = Some forest))
         \<and> (distinct (map comment_id comments)
              \<and> threadPath (p # ancestors) \<and> set (p # ancestors) \<subseteq> set comments \<longrightarrow>
              (\<exists>forest nested replies.
                 renderComments (Suc (length comments)) comments None = Some forest
                 \<and> Element p nested \<in> set (allElements forest)
                 \<and> Element c replies \<in> set nested))"
proof -
  have nested_in: "c \<in> set (map commentOf nested)"
    if "renderComments n comments None = Some f" "Element p nested \<in> set (allElements f)"
    for n f nested
  proof -
    have "map commentOf nested = filter (\<lambda>c. parent_id c = Some (comment_id p)) comments"
      using that by (rule rendered_nested)
    then show ?thesis using assms by simp
  qed
  have not_top: "c \<notin> set (map commentOf f)"
    if "renderComments n comments None = Some f" for n f
  proof -
    have "map commentOf f = filter (\<lambda>c. parent_id c = None) comments"
      using that by (rule rendered_level)
    then show ?thesis using assms by simp
  qed
  have rendered: "\<exists>nested replies. Element p nested \<in> set (allElements f)
                    \<and> Element c replies \<in> set nested"
    if r: "renderComments n comments None = Some f"
      and path: "threadPath (p # ancestors)" "set (p # ancestors) \<subseteq> set comments"
    for n f
  proof -
    have "p \<in> set (p # ancestors)" by simp
    with r path obtain nested where nested: "Element p nested \<in> set (allElements f)"
      using chain_is_rendered by blast
    with r assms obtain replies where "Element c replies \<in> set nested"
      using rendered_reply by blast
    with nested show ?thesis by blast
  qed
  have returns: "\<exists>f. renderComments (Suc (length comments)) comments None = Some f"
    if "distinct (map comment_id comments)"
  proof -
    from that have "inj_on comment_id (set comments)"
      by (simp add: distinct_map)
    then have "renderComments (Suc (length comments)) comments None \<noteq> None"
      by (rule renderComments_returns [where xs = "[]"]) simp_all
    then show ?thesis by auto
  qed
  show ?thesis
  proof (intro conjI impI allI)
    fix nested
    assume "renderComments fuel comments None = Some forest"
      and "Element p nested \<in> set (allElements forest)"
    then show "c \<in> set (map commentOf nested)" by (rule nested_in)
  next
    assume "renderComments fuel comments None = Some forest"
    then show "c \<notin> set (map commentOf forest)" by (rule not_top)
  next
    assume "renderComments fuel comments None = Some forest"
      and "threadPath (p # ancestors) \<and> set (p # ancestors) \<subseteq> set comments"
    then show "\<exists>nested replies. Element p nested \<in> set (allElements forest)
                    \<and> Element c replies \<in> set nested"
      using rendered by blast
  next
    assume "distinct (map comment_id comments)"
    then show "\<exists>forest. renderComments (Suc (length comments)) comments None = Some forest"
      by (rule returns)
  next
    assume a: "distinct (map comment_id comments)
              \<and> threadPath (p # ancestors) \<and> set (p # ancestors) \<subseteq> set comments"
    then obtain f where f: "renderComments (Suc (length comments)) comments None = Some f"
      using returns by blast
    with a obtain nested replies where "Element p nested \<in> set (allElements f)"
        "Element c replies \<in> set nested"
      using rendered by blast
    with f show "\<exists>forest nested replies.
                 renderComments (Suc (length comments)) comments None = Some forest
                 \<and> Element p nested \<in> set (allElements forest)
                 \<and> Element c replies \<in> set nested"
      by blast
  qed
qed

theorem reply_nested_under_rendered_parent_witness:
  "secondReply \<in> set fullThread
   \<and> parent_id secondReply = Some (comment_id replyComment)
   \<and> threadPath [replyComment, topComment]
   \<and> replyComment \<in> set fullThread \<and> topComment \<in> set fullThread
   \<and> distinct (map comment_id fullThread)
   \<and> renderComments 4 fullThread None
       = Some [Element topComment [Element replyComment [Element secondReply []]]]
   \<and> Element replyComment [Element secondReply []]
       \<in> set (allElements [Element topComment [Element replyComment [Element secondReply []]]])
   \<and> secondReply \<in> set (map commentOf [Element secondReply []])
   \<and> secondReply \<notin> set (map commentOf [Element topComment [Element replyComment [Element secondReply []]]])
   \<and> (\<exists>nested replies.
         Element replyComment nested
           \<in> set (allElements [Element topComment [Element replyComment [Element secondReply []]]])
         \<and> Element secondReply replies \<in> set nested)
   \<and> (\<exists>forest. renderComments (Suc (length fullThread)) fullThread None = Some forest)
   \<and> (\<exists>forest nested replies.
         renderComments (Suc (length fullThread)) fullThread None = Some forest
         \<and> Element replyComment nested \<in> set (allElements forest)
         \<and> Element secondReply replies \<in> set nested)"
proof -
  have h1: "secondReply \<in> set fullThread"
    by (simp add: fullThread_def)
  have h2: "parent_id secondReply = Some (comment_id replyComment)"
    by (simp add: secondReply_def replyComment_def)
  have p: "threadPath [replyComment, topComment]"
    by (simp add: replyComment_def topComment_def)
  have m: "replyComment \<in> set fullThread \<and> topComment \<in> set fullThread"
    by (simp add: fullThread_def)
  then have s: "set [replyComment, topComment] \<subseteq> set fullThread"
    by simp
  have r: "renderComments 4 fullThread None
       = Some [Element topComment [Element replyComment [Element secondReply []]]]"
    by code_simp
  have e: "Element replyComment [Element secondReply []]
       \<in> set (allElements [Element topComment [Element replyComment [Element secondReply []]]])"
    by (simp add: allElements_def)
  have d: "distinct (map comment_id fullThread)"
    by (simp add: fullThread_def secondReply_def replyComment_def topComment_def)
  show ?thesis
    using h1 h2 p m s r e d
      reply_nested_under_rendered_parent [OF h1 h2, of 4
        "[Element topComment [Element replyComment [Element secondReply []]]]" "[topComment]"]
    by blast
qed

text \<open>
  C9 as stated fails when the parent is in the list but is not rendered itself: after the
  top comment is gone, the first reply refers to a comment that is not in the list, the
  rendering is empty, and the second reply is not rendered although its parent is in the
  list.
\<close>

theorem orphaned_reply_counterexample:
  "secondReply \<in> set orphanedThread
   \<and> replyComment \<in> set orphanedThread
   \<and> parent_id secondReply = Some (comment_id replyComment)
   \<and> distinct (map comment_id orphanedThread)
   \<and> renderComments (Suc (length orphanedThread)) orphanedThread None = Some []"
  by (simp add: orphanedThread_def secondReply_def replyComment_def)

end
